theory Spec2Isabelle
  imports Complex_Main "HOL-Library.Word"
begin

section \<open>Strings\<close>

text \<open>
  JavaScript strings are modelled as HOL strings: lists of 8-bit characters, read as
  code units in the range 0..255.  \<open>is_ws\<close> holds for the white space characters of
  that range that \<open>String.prototype.trim\<close> removes.
\<close>

definition is_ws :: "char \<Rightarrow> bool" where
  "is_ws c = ((of_char c :: nat) \<in> {9, 10, 11, 12, 13, 32, 160})"

definition trim :: "string \<Rightarrow> string" where
  "trim s = rev (dropWhile is_ws (rev (dropWhile is_ws s)))"

fun digits_of :: "nat \<Rightarrow> string" where
  "digits_of n =
     (if n < 10 then [char_of (48 + n)]
      else digits_of (n div 10) @ [char_of (48 + n mod 10)])"

declare digits_of.simps [simp del]

section \<open>Task list (TodoManager.tsx)\<close>

record TodoItem =
  id_task :: string
  text_task :: string
  completed :: bool

datatype history_event =
    UpdateList string "TodoItem list"
  | NewList string "TodoItem list"

record todo_state =
  tasks :: "TodoItem list"
  newTaskText :: string
  editingTaskId :: "string option"
  editingTaskText :: string
  currentListId :: "string option"
  emitted :: "history_event list"

text \<open>A \<open>string | null\<close> value used as a condition: null and the empty string are falsy.\<close>

definition truthy_str :: "string option \<Rightarrow> bool" where
  "truthy_str v = (case v of None \<Rightarrow> False | Some s \<Rightarrow> s \<noteq> [])"

text \<open>
  \<open>handleUpdateHistory\<close>: the parent's callbacks are recorded in \<open>emitted\<close>;
  \<open>newId\<close> is what \<open>onNewList\<close> returns.
\<close>

definition handleUpdateHistory :: "string \<Rightarrow> TodoItem list \<Rightarrow> todo_state \<Rightarrow> todo_state" where
  "handleUpdateHistory newId updatedTasks st =
     (if truthy_str (currentListId st)
      then st\<lparr>emitted := emitted st @ [UpdateList (the (currentListId st)) updatedTasks]\<rparr>
      else st\<lparr>emitted := emitted st @ [NewList ''New To-Do List'' updatedTasks],
              currentListId := Some newId\<rparr>)"

text \<open>\<open>handleAddTask\<close>; \<open>now\<close> is the value of \<open>Date.now()\<close>.\<close>

definition handleAddTask :: "nat \<Rightarrow> string \<Rightarrow> todo_state \<Rightarrow> todo_state" where
  "handleAddTask now newId st =
     (if trim (newTaskText st) = [] then st
      else
        let newTask = \<lparr>id_task = ''task-'' @ digits_of now,
                        text_task = trim (newTaskText st),
                        completed = False\<rparr>;
            updatedTasks = tasks st @ [newTask]
        in handleUpdateHistory newId updatedTasks
             (st\<lparr>tasks := updatedTasks, newTaskText := []\<rparr>))"

definition handleToggleComplete :: "string \<Rightarrow> string \<Rightarrow> todo_state \<Rightarrow> todo_state" where
  "handleToggleComplete taskId newId st =
     (let updatedTasks =
            map (\<lambda>task. if id_task task = taskId
                         then task\<lparr>completed := \<not> completed task\<rparr> else task) (tasks st)
      in handleUpdateHistory newId updatedTasks (st\<lparr>tasks := updatedTasks\<rparr>))"

definition handleDeleteTask :: "string \<Rightarrow> string \<Rightarrow> todo_state \<Rightarrow> todo_state" where
  "handleDeleteTask taskId newId st =
     (let updatedTasks = filter (\<lambda>task. id_task task \<noteq> taskId) (tasks st)
      in handleUpdateHistory newId updatedTasks (st\<lparr>tasks := updatedTasks\<rparr>))"

definition startEditing :: "TodoItem \<Rightarrow> todo_state \<Rightarrow> todo_state" where
  "startEditing task st =
     st\<lparr>editingTaskId := Some (id_task task), editingTaskText := text_task task\<rparr>"

definition handleEditTask :: "string \<Rightarrow> todo_state \<Rightarrow> todo_state" where
  "handleEditTask newId st =
     (if \<not> truthy_str (editingTaskId st) \<or> trim (editingTaskText st) = []
      then st\<lparr>editingTaskId := None\<rparr>
      else
        let updatedTasks =
              map (\<lambda>task. if Some (id_task task) = editingTaskId st
                           then task\<lparr>text_task := trim (editingTaskText st)\<rparr> else task)
                  (tasks st)
        in (handleUpdateHistory newId updatedTasks (st\<lparr>tasks := updatedTasks\<rparr>))
             \<lparr>editingTaskId := None, editingTaskText := []\<rparr>)"

definition ids :: "todo_state \<Rightarrow> string list" where
  "ids st = map id_task (tasks st)"

text \<open>A list with two tasks, a pending new task and a pending edit.\<close>

definition todo_example :: todo_state where
  "todo_example =
     \<lparr>tasks = [\<lparr>id_task = ''task-5'', text_task = ''milk'', completed = False\<rparr>,
               \<lparr>id_task = ''task-7'', text_task = ''eggs'', completed = True\<rparr>],
      newTaskText = '' tea '', editingTaskId = Some ''task-7'', editingTaskText = ''bread'',
      currentListId = None, emitted = []\<rparr>"

section \<open>JavaScript values\<close>

subsection \<open>Numbers\<close>

text \<open>
  The numbers of the model are the integer-valued double-precision numbers, the two
  infinities and \<open>NaN\<close>.  \<open>IntNum i\<close> stands for a number of the language when \<open>i\<close> is
  a double, that is, when \<open>round_double i = i\<close>; a negative zero is not told from zero.
\<close>

datatype jsnum = NaN | IntNum int | PosInfinity | NegInfinity

fun bit_length :: "nat \<Rightarrow> nat" where
  "bit_length n = (if n = 0 then 0 else Suc (bit_length (n div 2)))"

declare bit_length.simps [simp del]

text \<open>
  The integer nearest to \<open>x\<close> with at most 53 significant bits, the even one of two at
  the same distance.
\<close>

definition round_double :: "int \<Rightarrow> int" where
  "round_double x =
     (let a = nat \<bar>x\<bar>;
          sh = bit_length a - 53;
          q = a div 2 ^ sh;
          r = a mod 2 ^ sh
      in if sh = 0 then x
         else sgn x * int ((if 2 * r > 2 ^ sh \<or> (2 * r = 2 ^ sh \<and> odd q) then q + 1 else q) * 2 ^ sh))"

text \<open>The number that an exact integer result becomes: rounded, infinite from \<open>2 ^ 1024\<close> on.\<close>

definition double_limit :: int where
  "double_limit = 2 ^ 1024"

definition to_double :: "int \<Rightarrow> jsnum" where
  "to_double x =
     (let y = round_double x
      in if y \<ge> double_limit then PosInfinity
         else if y \<le> - double_limit then NegInfinity
         else IntNum y)"

fun js_sign :: "jsnum \<Rightarrow> int" where
  "js_sign (IntNum a) = sgn a"
| "js_sign PosInfinity = 1"
| "js_sign NegInfinity = - 1"
| "js_sign NaN = 0"

text \<open>\<open>x + y\<close>, \<open>x * y\<close>, \<open>x < y\<close> and \<open>x <= y\<close> on numbers.\<close>

fun js_plus :: "jsnum \<Rightarrow> jsnum \<Rightarrow> jsnum" where
  "js_plus (IntNum a) (IntNum b) = to_double (a + b)"
| "js_plus NaN y = NaN"
| "js_plus x NaN = NaN"
| "js_plus PosInfinity NegInfinity = NaN"
| "js_plus NegInfinity PosInfinity = NaN"
| "js_plus PosInfinity y = PosInfinity"
| "js_plus NegInfinity y = NegInfinity"
| "js_plus x PosInfinity = PosInfinity"
| "js_plus x NegInfinity = NegInfinity"

fun js_times :: "jsnum \<Rightarrow> jsnum \<Rightarrow> jsnum" where
  "js_times (IntNum a) (IntNum b) = to_double (a * b)"
| "js_times NaN y = NaN"
| "js_times x NaN = NaN"
| "js_times x y =
     (if js_sign x * js_sign y = 0 then NaN
      else if js_sign x * js_sign y > 0 then PosInfinity else NegInfinity)"

fun js_less :: "jsnum \<Rightarrow> jsnum \<Rightarrow> bool" where
  "js_less NaN y = False"
| "js_less x NaN = False"
| "js_less (IntNum a) (IntNum b) = (a < b)"
| "js_less x PosInfinity = (x \<noteq> PosInfinity)"
| "js_less NegInfinity y = (y \<noteq> NegInfinity)"
| "js_less x y = False"

definition js_le :: "jsnum \<Rightarrow> jsnum \<Rightarrow> bool" where
  "js_le x y = (x \<noteq> NaN \<and> y \<noteq> NaN \<and> \<not> js_less y x)"

fun truthy_num :: "jsnum \<Rightarrow> bool" where
  "truthy_num NaN = False"
| "truthy_num (IntNum i) = (i \<noteq> 0)"
| "truthy_num x = True"

text \<open>The conversion to an unsigned integer of \<open>w\<close> bits, as the setters of a view do it.\<close>

fun to_uint :: "nat \<Rightarrow> jsnum \<Rightarrow> int" where
  "to_uint w (IntNum v) = v mod 2 ^ w"
| "to_uint w x = 0"

subsection \<open>Values\<close>

text \<open>
  The values that reach the error classifier and that the components throw: objects are
  association lists from property names to values, and \<open>ErrorInst\<close> is an instance of
  \<open>Error\<close> with its message and its other own properties.  There are no function
  values.
\<close>

datatype jsval =
    Undefined
  | Null
  | Bool bool
  | Num jsnum
  | Str string
  | Arr "jsval list"
  | Obj "(string \<times> jsval) list"
  | ErrorInst string "(string \<times> jsval) list"

text \<open>\<open>new Error(msg)\<close>\<close>

definition new_Error :: "string \<Rightarrow> jsval" where
  "new_Error msg = ErrorInst msg []"

section \<open>Operation poller (VideoGenerator.tsx)\<close>

definition loadingMessages :: "string list" where
  "loadingMessages =
     [''Warming up the AI director...'',
      ''Rendering the first few frames...'',
      ''Compositing the digital scenes...'',
      ''Applying cinematic color grading...'',
      ''Adding special effects...'',
      ''Finalizing the video masterpiece...'',
      ''This can take a few minutes, good things take time!'']"

text \<open>
  A \<open>GenerateVideosOperation\<close>: whether it is done, and the download link
  \<open>response?.generatedVideos?.[0]?.video?.uri\<close> when there is one.
\<close>

record operation =
  done_op :: bool
  video_uri :: "string option"

definition maxPolls :: nat where
  "maxPolls = 30"

text \<open>The local variables of \<open>pollOperation\<close> and the loading message it sets.\<close>

record poll_state =
  currentOperation :: operation
  messageIndex :: nat
  polls :: nat
  loadingMessage :: string

text \<open>
  The loop of \<open>pollOperation\<close>.  \<open>getVideosOperation n op\<close> is the outcome of the
  \<open>n\<close>-th call of \<open>ai.operations.getVideosOperation\<close>, made with the operation \<open>op\<close>:
  \<open>Inl e\<close> when it throws \<open>e\<close>, \<open>Inr op'\<close> when it resolves to \<open>op'\<close>.  The result is
  what \<open>pollOperation\<close> returns or throws, with the final values of its variables;
  \<open>polls\<close> counts the calls made.
\<close>

function pollLoop ::
  "(nat \<Rightarrow> operation \<Rightarrow> jsval + operation) \<Rightarrow> poll_state \<Rightarrow> (jsval + operation) \<times> poll_state"
where
  "pollLoop getVideosOperation s =
     (if done_op (currentOperation s) then (Inr (currentOperation s), s)
      else if polls s \<ge> maxPolls
      then (Inl (new_Error ''Video generation timed out after 5 minutes.''), s)
      else pollLoop getVideosOperation
             (s\<lparr>polls := polls s + 1,
                loadingMessage := loadingMessages ! (messageIndex s mod length loadingMessages),
                messageIndex := messageIndex s + 1,
                currentOperation :=
                  (case getVideosOperation (polls s + 1) (currentOperation s) of
                     Inl e \<Rightarrow> currentOperation s
                   | Inr op' \<Rightarrow> op')\<rparr>))"
  by pat_completeness auto
termination
  by (relation "measure (\<lambda>(g, s). maxPolls - polls s)") auto

declare pollLoop.simps [simp del]

definition pollOperation ::
  "(nat \<Rightarrow> operation \<Rightarrow> jsval + operation) \<Rightarrow> operation \<Rightarrow> string
     \<Rightarrow> (jsval + operation) \<times> poll_state"
where
  "pollOperation getVideosOperation operation shown =
     pollLoop getVideosOperation
       \<lparr>currentOperation = operation, messageIndex = 1, polls = 0, loadingMessage = shown\<rparr>"

text \<open>A poll step that fails on the second call and reports done on the third.\<close>

definition done_on_third :: "nat \<Rightarrow> operation \<Rightarrow> jsval + operation" where
  "done_on_third n op =
     (if n = 3 then Inr \<lparr>done_op = True, video_uri = Some ''https://video''\<rparr>
      else if n = 2 then Inl (new_Error ''network'')
      else Inr op)"

definition always_failing :: "nat \<Rightarrow> operation \<Rightarrow> jsval + operation" where
  "always_failing n op = Inl (new_Error ''network'')"

definition pending :: operation where
  "pending = \<lparr>done_op = False, video_uri = None\<rparr>"

section \<open>Retry countdown (VoiceGenerator.tsx, VideoGenerator.tsx, Chatbot.tsx)\<close>

text \<open>
  The three components hold the same countdown: the state \<open>retryAfter\<close>, the reference
  \<open>timerRef\<close> and the interval timers of the window.  \<open>live\<close> lists the timers that
  were set and not cleared, \<open>nextTimer\<close> is the identifier the next \<open>setInterval\<close>
  returns.
\<close>

record retry_state =
  retryAfter :: jsnum
  timerRef :: "nat option"
  live :: "nat list"
  nextTimer :: nat

definition clearInterval :: "nat \<Rightarrow> retry_state \<Rightarrow> retry_state" where
  "clearInterval h st = st\<lparr>live := removeAll h (live st)\<rparr>"

text \<open>\<open>if (timerRef.current) clearInterval(timerRef.current)\<close>: null and 0 are falsy.\<close>

definition clear_timerRef :: "retry_state \<Rightarrow> retry_state" where
  "clear_timerRef st =
     (case timerRef st of
        None \<Rightarrow> st
      | Some h \<Rightarrow> if h \<noteq> 0 then clearInterval h st else st)"

text \<open>
  The step of \<open>handleGenerate\<close> before the request: \<open>setRetryAfter(0)\<close>, then the
  timer of \<open>timerRef\<close> is cleared.
\<close>

definition cancel_retry :: "retry_state \<Rightarrow> retry_state" where
  "cancel_retry st = clear_timerRef (st\<lparr>retryAfter := IntNum 0\<rparr>)"

text \<open>
  The callback of the interval timer \<open>h\<close>, run once per period while \<open>h\<close> is live:
  \<open>setRetryAfter(prev => ...)\<close>.  A cleared timer does not fire.
\<close>

definition tick :: "nat \<Rightarrow> retry_state \<Rightarrow> retry_state" where
  "tick h st =
     (if h \<in> set (live st)
      then (if js_le (retryAfter st) (IntNum 1) then (clear_timerRef st)\<lparr>retryAfter := IntNum 0\<rparr>
            else st\<lparr>retryAfter := js_plus (retryAfter st) (IntNum (- 1))\<rparr>)
      else st)"

text \<open>
  The step in the \<open>catch\<close> branch, later in the same run of the handler and after the
  request has failed: \<open>if (retryDelay && retryDelay > 0)\<close> the countdown is set and a
  new interval timer is stored in \<open>timerRef\<close>.  This step clears no timer.  Other
  steps, also of another run of the handler, can come between the two steps of a run.
\<close>

definition arm_retry :: "jsnum option \<Rightarrow> retry_state \<Rightarrow> retry_state" where
  "arm_retry retryDelay st =
     (case retryDelay of
        None \<Rightarrow> st
      | Some d \<Rightarrow>
          if truthy_num d \<and> js_less (IntNum 0) d
          then st\<lparr>retryAfter := d, timerRef := Some (nextTimer st),
                  live := nextTimer st # live st, nextTimer := nextTimer st + 1\<rparr>
          else st)"


text \<open>At most the timer in \<open>timerRef\<close> is live, and timer identifiers are positive.\<close>

definition one_timer :: "retry_state \<Rightarrow> bool" where
  "one_timer st =
     (0 < nextTimer st \<and>
      (\<forall>h \<in> set (live st). timerRef st = Some h \<and> 0 < h \<and> h < nextTimer st))"

definition retry_init :: retry_state where
  "retry_init = \<lparr>retryAfter = IntNum 0, timerRef = None, live = [], nextTimer = 1\<rparr>"

section \<open>Media codec: the WAV writer (audioUtils)\<close>

type_synonym byte = "8 word"

text \<open>Sequencing of steps that may throw: \<open>Inl\<close> is the thrown value.\<close>

definition andThen :: "jsval + 'a \<Rightarrow> ('a \<Rightarrow> jsval + 'b) \<Rightarrow> jsval + 'b" where
  "andThen r f = (case r of Inl e \<Rightarrow> Inl e | Inr a \<Rightarrow> f a)"

definition RangeError :: jsval where
  "RangeError = ErrorInst ''Offset is outside the bounds of the DataView'' [(''name'', Str ''RangeError'')]"

text \<open>
  The setters of a \<open>DataView\<close> over the whole buffer, with \<open>littleEndian = true\<close>.  The
  value is a number; it is converted to an unsigned integer of 8, 16 or 32 bits
  (\<open>of_int\<close> on bytes is modulo 256).  A write that does not fit throws.
\<close>

definition setUint8 :: "nat \<Rightarrow> jsnum \<Rightarrow> byte list \<Rightarrow> jsval + byte list" where
  "setUint8 byteOffset v view =
     (if byteOffset + 1 \<le> length view then Inr (view[byteOffset := of_int (to_uint 8 v)])
      else Inl RangeError)"

definition setUint16 :: "nat \<Rightarrow> jsnum \<Rightarrow> byte list \<Rightarrow> jsval + byte list" where
  "setUint16 byteOffset v view =
     (if byteOffset + 2 \<le> length view
      then Inr (view[byteOffset := of_int (to_uint 16 v),
                     byteOffset + 1 := of_int (to_uint 16 v div 256)])
      else Inl RangeError)"

definition setUint32 :: "nat \<Rightarrow> jsnum \<Rightarrow> byte list \<Rightarrow> jsval + byte list" where
  "setUint32 byteOffset v view =
     (if byteOffset + 4 \<le> length view
      then Inr (view[byteOffset := of_int (to_uint 32 v),
                     byteOffset + 1 := of_int (to_uint 32 v div 256),
                     byteOffset + 2 := of_int (to_uint 32 v div 65536),
                     byteOffset + 3 := of_int (to_uint 32 v div 16777216)])
      else Inl RangeError)"

fun writeString :: "nat \<Rightarrow> string \<Rightarrow> byte list \<Rightarrow> jsval + byte list" where
  "writeString offset [] view = Inr view"
| "writeString offset (c # str) view =
     andThen (setUint8 offset (IntNum (of_char c)) view) (writeString (offset + 1) str)"

text \<open>\<open>TypedArray.prototype.set(source, offset)\<close>\<close>

definition set_bytes :: "byte list \<Rightarrow> nat \<Rightarrow> byte list \<Rightarrow> jsval + byte list" where
  "set_bytes source offset target =
     (if offset + length source \<le> length target
      then Inr (take offset target @ source @ drop (offset + length source) target)
      else Inl RangeError)"

text \<open>
  \<open>new ArrayBuffer(len)\<close>: a length that is not an integer from 0 to \<open>2 ^ 53 - 1\<close>
  throws.  (An implementation may also refuse a smaller length for lack of memory; this
  is not modelled.)
\<close>

definition new_ArrayBuffer :: "jsnum \<Rightarrow> jsval + byte list" where
  "new_ArrayBuffer len =
     (case len of
        IntNum l \<Rightarrow> if 0 \<le> l \<and> l \<le> 2 ^ 53 - 1 then Inr (replicate (nat l) 0) else Inl RangeError
      | NaN \<Rightarrow> Inr []
      | _ \<Rightarrow> Inl RangeError)"

record blob =
  blob_parts :: "byte list"
  blob_type :: string

text \<open>
  \<open>createWavBlob\<close>.  The sums and products are those of the language, on
  double-precision numbers; \<open>bytesPerSample\<close> is the quotient \<open>bitsPerSample / 8\<close>, which
  is 2.
\<close>

definition createWavBlob :: "byte list \<Rightarrow> jsnum \<Rightarrow> jsnum \<Rightarrow> jsval + blob" where
  "createWavBlob pcmData sampleRate numChannels =
     (let bitsPerSample = IntNum 16;
          bytesPerSample = IntNum (16 div 8);
          dataSize = IntNum (int (length pcmData))
      in andThen (new_ArrayBuffer (js_plus (IntNum 44) dataSize)) (\<lambda>buffer.
         andThen (writeString 0 ''RIFF'' buffer) (\<lambda>view.
         andThen (setUint32 4 (js_plus (IntNum 36) dataSize) view) (\<lambda>view.
         andThen (writeString 8 ''WAVE'' view) (\<lambda>view.
         andThen (writeString 12 ''fmt '' view) (\<lambda>view.
         andThen (setUint32 16 (IntNum 16) view) (\<lambda>view.
         andThen (setUint16 20 (IntNum 1) view) (\<lambda>view.
         andThen (setUint16 22 numChannels view) (\<lambda>view.
         andThen (setUint32 24 sampleRate view) (\<lambda>view.
         andThen (setUint32 28 (js_times (js_times sampleRate numChannels) bytesPerSample) view) (\<lambda>view.
         andThen (setUint16 32 (js_times numChannels bytesPerSample) view) (\<lambda>view.
         andThen (setUint16 34 bitsPerSample view) (\<lambda>view.
         andThen (writeString 36 ''data'' view) (\<lambda>view.
         andThen (setUint32 40 dataSize view) (\<lambda>view.
         andThen (set_bytes pcmData 44 view) (\<lambda>wavBytes.
         Inr \<lparr>blob_parts = wavBytes, blob_type = ''audio/wav''\<rparr>))))))))))))))))"

text \<open>
  The layout of the header as the design states it, field by field, and the reading of a
  little-endian field.  \<open>le16\<close> and \<open>le32\<close> are the bytes of a value of the range of the
  field, low byte first.
\<close>

definition le16 :: "int \<Rightarrow> byte list" where
  "le16 v = [of_int v, of_int (v div 256)]"

definition le32 :: "int \<Rightarrow> byte list" where
  "le32 v = [of_int v, of_int (v div 256), of_int (v div 65536), of_int (v div 16777216)]"

definition ascii :: "string \<Rightarrow> byte list" where
  "ascii s = map (\<lambda>c. of_nat (of_char c)) s"

text \<open>
  The header with the given values in its six numeric fields that depend on the
  arguments: chunk size, channels, sample rate, byte rate, block align, data size.
\<close>

definition wav_header :: "int \<Rightarrow> int \<Rightarrow> int \<Rightarrow> int \<Rightarrow> int \<Rightarrow> int \<Rightarrow> byte list" where
  "wav_header chunkSize channels rate byteRate blockAlign dataSize =
     ascii ''RIFF'' @ le32 chunkSize @ ascii ''WAVE'' @
     ascii ''fmt '' @ le32 16 @ le16 1 @ le16 channels @ le32 rate @
     le32 byteRate @ le16 blockAlign @ le16 16 @
     ascii ''data'' @ le32 dataSize"

text \<open>The values that \<open>createWavBlob\<close> stores in those fields.\<close>

definition header_of :: "nat \<Rightarrow> jsnum \<Rightarrow> jsnum \<Rightarrow> byte list" where
  "header_of n sampleRate numChannels =
     wav_header (to_uint 32 (js_plus (IntNum 36) (IntNum (int n))))
                (to_uint 16 numChannels)
                (to_uint 32 sampleRate)
                (to_uint 32 (js_times (js_times sampleRate numChannels) (IntNum 2)))
                (to_uint 16 (js_times numChannels (IntNum 2)))
                (to_uint 32 (IntNum (int n)))"

fun read_le :: "byte list \<Rightarrow> int" where
  "read_le [] = 0"
| "read_le (b # bs) = uint b + 256 * read_le bs"

definition field :: "nat \<Rightarrow> nat \<Rightarrow> byte list \<Rightarrow> byte list" where
  "field first n bytes = take n (drop first bytes)"

section \<open>Media codec: PCM to float (audioUtils)\<close>

text \<open>
  A \<open>Uint8Array\<close>: a window of \<open>length_view\<close> bytes at \<open>byteOffset\<close> of its underlying
  buffer.
\<close>

record uint8array =
  buffer_of :: "byte list"
  byteOffset :: nat
  length_view :: nat

text \<open>A signed 16-bit sample from its low and its high byte.\<close>

definition int16_of :: "byte \<Rightarrow> byte \<Rightarrow> int" where
  "int16_of lo hi =
     (let u = uint lo + 256 * uint hi in if u \<ge> 32768 then u - 65536 else u)"

text \<open>
  \<open>new Int16Array(data.buffer, data.byteOffset, data.length / 2)\<close> on a little-endian
  platform: the length is truncated to an integer; an odd offset and a window that
  leaves the buffer throw.
\<close>

definition new_Int16Array :: "uint8array \<Rightarrow> jsval + int list" where
  "new_Int16Array data =
     (let n = length_view data div 2 in
      if byteOffset data mod 2 \<noteq> 0 then Inl RangeError
      else if byteOffset data + 2 * n > length (buffer_of data) then Inl RangeError
      else Inr (map (\<lambda>k. int16_of (buffer_of data ! (byteOffset data + 2 * k))
                                   (buffer_of data ! (byteOffset data + 2 * k + 1)))
                    [0..<n]))"

text \<open>
  An element of a \<open>Float32Array\<close>.  The quotients of a 16-bit integer by 32768 are
  single-precision numbers, so no rounding takes place and they are modelled as reals.
\<close>

datatype float = Float real | NotANumber

text \<open>\<open>dataInt16[k] / 32768.0\<close>: reading past the end gives \<open>undefined\<close>, and the quotient is NaN.\<close>

definition sample_at :: "int list \<Rightarrow> nat \<Rightarrow> float" where
  "sample_at dataInt16 k =
     (if k < length dataInt16 then Float (real_of_int (dataInt16 ! k) / 32768) else NotANumber)"

text \<open>\<open>channelData[i] = v\<close>: a write past the end of a typed array does nothing.\<close>

definition store :: "float list \<Rightarrow> nat \<Rightarrow> float \<Rightarrow> float list" where
  "store channelData i v = (if i < length channelData then channelData[i := v] else channelData)"

text \<open>The inner loop, from \<open>i\<close> on; \<open>frameCount\<close> need not be an integer.\<close>

function frame_loop :: "int list \<Rightarrow> nat \<Rightarrow> real \<Rightarrow> nat \<Rightarrow> nat \<Rightarrow> float list \<Rightarrow> float list" where
  "frame_loop dataInt16 numChannels frameCount channel i channelData =
     (if real i < frameCount
      then frame_loop dataInt16 numChannels frameCount channel (i + 1)
             (store channelData i (sample_at dataInt16 (i * numChannels + channel)))
      else channelData)"
  by pat_completeness auto
termination
  by (relation "measure (\<lambda>(d, c, fc, ch, i, cd). nat \<lceil>fc\<rceil> - i)") (auto, linarith)

declare frame_loop.simps [simp del]

definition IndexSizeError :: jsval where
  "IndexSizeError = ErrorInst ''channel index out of range'' [(''name'', Str ''IndexSizeError'')]"

text \<open>
  The outer loop, from \<open>channel\<close> on; \<open>getChannelData\<close> throws for a channel the buffer
  does not have.
\<close>

function channel_loop ::
  "int list \<Rightarrow> nat \<Rightarrow> real \<Rightarrow> nat \<Rightarrow> float list list \<Rightarrow> jsval + float list list" where
  "channel_loop dataInt16 numChannels frameCount channel buffer =
     (if channel < numChannels
      then (if channel < length buffer
            then channel_loop dataInt16 numChannels frameCount (channel + 1)
                   (buffer[channel :=
                      frame_loop dataInt16 numChannels frameCount channel 0 (buffer ! channel)])
            else Inl IndexSizeError)
      else Inr buffer)"
  by pat_completeness auto
termination
  by (relation "measure (\<lambda>(d, c, fc, ch, b). c - ch)") auto

declare channel_loop.simps [simp del]

text \<open>
  \<open>decodeAudioData\<close>.  The audio context enters through its method \<open>createBuffer\<close>,
  which is given the channel count, the frame count truncated to an unsigned integer,
  and the sample rate, and returns the channels of the new buffer or throws.
\<close>

definition decodeAudioData ::
  "uint8array \<Rightarrow> (nat \<Rightarrow> nat \<Rightarrow> real \<Rightarrow> jsval + float list list) \<Rightarrow> real \<Rightarrow> nat
     \<Rightarrow> jsval + float list list" where
  "decodeAudioData data createBuffer sampleRate numChannels =
     andThen (new_Int16Array data) (\<lambda>dataInt16.
       let frameCount = real (length dataInt16) / real numChannels in
       andThen (createBuffer numChannels (nat \<lfloor>frameCount\<rfloor>) sampleRate) (\<lambda>buffer.
         channel_loop dataInt16 numChannels frameCount 0 buffer))"

text \<open>The samples a window holds, and a context whose buffers start silent.\<close>

definition samples_of :: "uint8array \<Rightarrow> int list" where
  "samples_of data =
     map (\<lambda>k. int16_of (buffer_of data ! (byteOffset data + 2 * k))
                        (buffer_of data ! (byteOffset data + 2 * k + 1)))
         [0..<length_view data div 2]"

definition silent_buffer :: "nat \<Rightarrow> nat \<Rightarrow> real \<Rightarrow> jsval + float list list" where
  "silent_buffer numberOfChannels len sampleRate =
     Inr (replicate numberOfChannels (replicate len (Float 0)))"

text \<open>Seven bytes: three samples and a trailing byte.\<close>

definition pcm_example :: uint8array where
  "pcm_example = \<lparr>buffer_of = [0, 128, 255, 127, 1, 0, 9], byteOffset = 0, length_view = 7\<rparr>"

text \<open>A window of four bytes at the odd offset 1 of a buffer of six bytes.\<close>

definition pcm_odd_example :: uint8array where
  "pcm_odd_example = \<lparr>buffer_of = [0, 1, 0, 2, 0, 0], byteOffset = 1, length_view = 4\<rparr>"

section \<open>Media codec: base64 (audioUtils)\<close>

text \<open>
  \<open>btoa\<close> and \<open>atob\<close> are functions of the platform.  They are modelled after their
  standard: \<open>btoa\<close> is the base64 encoding of RFC 4648 with padding and without line
  breaks, \<open>atob\<close> is the forgiving base64 decoding of the HTML standard.  A binary string
  is a string of code units below 256, which is what a HOL string is; \<open>btoa\<close> throws only
  for other code units, so here it always returns.
\<close>

definition b64_alphabet :: string where
  "b64_alphabet = ''ABCDEFGHIJKLMNOPQRSTUVWXYZabcdefghijklmnopqrstuvwxyz0123456789+/''"

definition b64_char :: "nat \<Rightarrow> char" where
  "b64_char n = b64_alphabet ! n"

fun index_of :: "'a list \<Rightarrow> 'a \<Rightarrow> nat option" where
  "index_of [] c = None"
| "index_of (x # xs) c = (if x = c then Some 0 else map_option Suc (index_of xs c))"

definition b64_index :: "char \<Rightarrow> nat option" where
  "b64_index c = index_of b64_alphabet c"

text \<open>
  Three bytes \<open>a\<close>, \<open>b\<close>, \<open>c\<close> are 24 bits, read as four 6-bit values; a last group
  of two bytes or of one byte is filled up with zero bits.
\<close>

definition sextet1 :: "nat \<Rightarrow> nat" where
  "sextet1 a = a div 4"

definition sextet2 :: "nat \<Rightarrow> nat \<Rightarrow> nat" where
  "sextet2 a b = (a mod 4) * 16 + b div 16"

definition sextet3 :: "nat \<Rightarrow> nat \<Rightarrow> nat" where
  "sextet3 b c = (b mod 16) * 4 + c div 64"

definition sextet4 :: "nat \<Rightarrow> nat" where
  "sextet4 c = c mod 64"

fun b64_body :: "string \<Rightarrow> string" where
  "b64_body (a # b # c # rest) =
     [b64_char (sextet1 (of_char a)),
      b64_char (sextet2 (of_char a) (of_char b)),
      b64_char (sextet3 (of_char b) (of_char c)),
      b64_char (sextet4 (of_char c))] @ b64_body rest"
| "b64_body [a, b] =
     [b64_char (sextet1 (of_char a)),
      b64_char (sextet2 (of_char a) (of_char b)),
      b64_char (sextet3 (of_char b) 0)]"
| "b64_body [a] =
     [b64_char (sextet1 (of_char a)),
      b64_char (sextet2 (of_char a) 0)]"
| "b64_body [] = []"

definition b64_pad :: "string \<Rightarrow> string" where
  "b64_pad s = replicate ((3 - length s mod 3) mod 3) CHR ''=''"

definition btoa :: "string \<Rightarrow> jsval + string" where
  "btoa s = Inr (b64_body s @ b64_pad s)"

definition InvalidCharacterError :: jsval where
  "InvalidCharacterError =
     ErrorInst ''The string to be decoded is not correctly encoded.''
       [(''name'', Str ''InvalidCharacterError'')]"

definition ascii_whitespace :: "char \<Rightarrow> bool" where
  "ascii_whitespace c = ((of_char c :: nat) \<in> {9, 10, 12, 13, 32})"

text \<open>Removes one or two \<open>=\<close> at the end.\<close>

definition strip_padding :: "string \<Rightarrow> string" where
  "strip_padding d =
     (case rev d of
        x # y # r \<Rightarrow>
          if x = CHR ''='' \<and> y = CHR ''='' then rev r
          else if x = CHR ''='' then rev (y # r) else d
      | [x] \<Rightarrow> if x = CHR ''='' then [] else d
      | [] \<Rightarrow> d)"

text \<open>
  The bytes of groups of four 6-bit values; of a last group of three the low two bits
  are dropped, of a last group of two the low four bits.
\<close>

definition octet1 :: "nat \<Rightarrow> nat \<Rightarrow> nat" where
  "octet1 s1 s2 = s1 * 4 + s2 div 16"

definition octet2 :: "nat \<Rightarrow> nat \<Rightarrow> nat" where
  "octet2 s2 s3 = (s2 mod 16) * 16 + s3 div 4"

definition octet3 :: "nat \<Rightarrow> nat \<Rightarrow> nat" where
  "octet3 s3 s4 = (s3 mod 4) * 64 + s4"

fun b64_groups :: "nat list \<Rightarrow> string" where
  "b64_groups (s1 # s2 # s3 # s4 # rest) =
     [char_of (octet1 s1 s2), char_of (octet2 s2 s3), char_of (octet3 s3 s4)] @ b64_groups rest"
| "b64_groups [s1, s2, s3] = [char_of (octet1 s1 s2), char_of (octet2 s2 s3)]"
| "b64_groups [s1, s2] = [char_of (octet1 s1 s2)]"
| "b64_groups [s1] = []"
| "b64_groups [] = []"

definition atob :: "string \<Rightarrow> jsval + string" where
  "atob data =
     (let d1 = filter (\<lambda>c. \<not> ascii_whitespace c) data;
          d2 = (if length d1 mod 4 = 0 then strip_padding d1 else d1)
      in if length d2 mod 4 = 1 then Inl InvalidCharacterError
         else if \<exists>c \<in> set d2. b64_index c = None then Inl InvalidCharacterError
         else Inr (b64_groups (map (\<lambda>c. the (b64_index c)) d2)))"

text \<open>\<open>decode\<close> and \<open>encode\<close>: the loops copy code units to bytes and back.\<close>

definition decode :: "string \<Rightarrow> jsval + byte list" where
  "decode base64 =
     andThen (atob base64) (\<lambda>binaryString.
       Inr (map (\<lambda>c. of_nat (of_char c)) binaryString))"

definition encode :: "byte list \<Rightarrow> jsval + string" where
  "encode bytes = btoa (map (\<lambda>b. char_of (unat b)) bytes)"

section \<open>Error classifier (errorUtils)\<close>

subsection \<open>The operations of the language that the classifier uses\<close>

definition TypeError :: "string \<Rightarrow> jsval" where
  "TypeError msg = ErrorInst msg [(''name'', Str ''TypeError'')]"

fun truthy :: "jsval \<Rightarrow> bool" where
  "truthy Undefined = False"
| "truthy Null = False"
| "truthy (Bool b) = b"
| "truthy (Num n) = truthy_num n"
| "truthy (Str s) = (s \<noteq> [])"
| "truthy (Arr xs) = True"
| "truthy (Obj ps) = True"
| "truthy (ErrorInst m ps) = True"

fun nullish :: "jsval \<Rightarrow> bool" where
  "nullish Undefined = True"
| "nullish Null = True"
| "nullish v = False"

text \<open>
  \<open>v.k\<close> for a value \<open>v\<close> that is neither null nor undefined, and a name \<open>k\<close> that the
  prototypes do not define; all names read by the classifier are of this kind.
\<close>

fun jsprop :: "jsval \<Rightarrow> string \<Rightarrow> jsval" where
  "jsprop (Obj ps) k = (case map_of ps k of Some v \<Rightarrow> v | None \<Rightarrow> Undefined)"
| "jsprop (ErrorInst m ps) k =
     (if k = ''message'' then Str m
      else case map_of ps k of Some v \<Rightarrow> v | None \<Rightarrow> Undefined)"
| "jsprop v k = Undefined"

text \<open>\<open>v?.k\<close>\<close>

definition opt_jsprop :: "jsval \<Rightarrow> string \<Rightarrow> jsval" where
  "opt_jsprop v k = (if nullish v then Undefined else jsprop v k)"

text \<open>\<open>v[k]\<close> where \<open>v\<close> may be null or undefined\<close>

definition get :: "jsval \<Rightarrow> string \<Rightarrow> jsval + jsval" where
  "get v k =
     (if nullish v then Inl (TypeError ''Cannot read properties of undefined'')
      else Inr (jsprop v k))"

text \<open>\<open>a || b\<close>\<close>

definition js_or :: "jsval \<Rightarrow> jsval \<Rightarrow> jsval" where
  "js_or a b = (if truthy a then a else b)"

text \<open>
  The text of a number.  Below \<open>10 ^ 21\<close> an integer is written with all its digits.
  From there on it is written with an exponent: with the fewest digits \<open>n\<close> such that
  some integer \<open>s\<close> of \<open>n\<close> digits, followed by zeros, is rounded to the number, and
  among these the \<open>s\<close> nearest to it.
\<close>

definition exponent_candidates :: "nat \<Rightarrow> nat \<Rightarrow> nat \<Rightarrow> nat list" where
  "exponent_candidates x k n =
     filter (\<lambda>s. 10 ^ (n - 1) \<le> s \<and> s < 10 ^ n \<and>
                 round_double (int (s * 10 ^ (k - n))) = int x)
            [x div 10 ^ (k - n), x div 10 ^ (k - n) + 1]"

definition closest :: "nat \<Rightarrow> nat \<Rightarrow> nat list \<Rightarrow> nat option" where
  "closest x m cs =
     (case cs of
        [] \<Rightarrow> None
      | [s] \<Rightarrow> Some s
      | s # t # rest \<Rightarrow>
          (let d0 = \<bar>int (s * m) - int x\<bar>; d1 = \<bar>int (t * m) - int x\<bar>
           in Some (if d0 < d1 then s else if d1 < d0 then t else if even s then s else t)))"

fun shortest_digits :: "nat \<Rightarrow> nat \<Rightarrow> nat list \<Rightarrow> nat option" where
  "shortest_digits x k [] = None"
| "shortest_digits x k (n # ns) =
     (case closest x (10 ^ (k - n)) (exponent_candidates x k n) of
        Some s \<Rightarrow> Some s
      | None \<Rightarrow> shortest_digits x k ns)"

definition exponent_text :: "nat \<Rightarrow> nat \<Rightarrow> string" where
  "exponent_text s k =
     (let ds = digits_of s
      in (if length ds = 1 then ds else hd ds # CHR ''.'' # tl ds) @ ''e+'' @ digits_of (k - 1))"

definition magnitude_to_string :: "nat \<Rightarrow> string" where
  "magnitude_to_string x =
     (if x < 10 ^ 21 then digits_of x
      else
        let dx = length (digits_of x)
        in if round_double (int (10 ^ dx)) = int x then exponent_text 1 (dx + 1)
           else (case shortest_digits x dx [1..<18] of
                   Some s \<Rightarrow> exponent_text s dx
                 | None \<Rightarrow> digits_of x))"

definition number_to_string :: "jsnum \<Rightarrow> string" where
  "number_to_string n =
     (case n of
        NaN \<Rightarrow> ''NaN''
      | PosInfinity \<Rightarrow> ''Infinity''
      | NegInfinity \<Rightarrow> ''-Infinity''
      | IntNum i \<Rightarrow> if i < 0 then CHR ''-'' # magnitude_to_string (nat (- i))
                   else magnitude_to_string (nat i))"

fun join :: "string list \<Rightarrow> string" where
  "join [] = []"
| "join [s] = s"
| "join (s # t # ss) = s @ '','' @ join (t # ss)"

fun collect :: "(jsval + 'a) list \<Rightarrow> jsval + 'a list" where
  "collect [] = Inr []"
| "collect (r # rs) =
     (case r of
        Inl e \<Rightarrow> Inl e
      | Inr a \<Rightarrow> (case collect rs of Inl e \<Rightarrow> Inl e | Inr as \<Rightarrow> Inr (a # as)))"

text \<open>
  \<open>String(v)\<close>, which is also the conversion of \<open>v\<close> inside a template.  An object with
  an own property \<open>toString\<close> cannot be converted, as no value of the model is a function.
  An array joins the conversions of its elements, null and undefined giving the empty
  string.
\<close>

fun js_to_string :: "jsval \<Rightarrow> jsval + string" where
  "js_to_string Undefined = Inr ''undefined''"
| "js_to_string Null = Inr ''null''"
| "js_to_string (Bool b) = Inr (if b then ''true'' else ''false'')"
| "js_to_string (Num n) = Inr (number_to_string n)"
| "js_to_string (Str s) = Inr s"
| "js_to_string (Arr xs) =
     andThen (collect (map (\<lambda>x. if nullish x then Inr [] else js_to_string x) xs))
       (\<lambda>ss. Inr (join ss))"
| "js_to_string (Obj ps) =
     (if ''toString'' \<in> fst ` set ps
      then Inl (TypeError ''Cannot convert object to primitive value'')
      else Inr ''[object Object]'')"
| "js_to_string (ErrorInst m ps) =
     (if ''toString'' \<in> fst ` set ps
      then Inl (TypeError ''Cannot convert object to primitive value'')
      else andThen
             (case map_of (map (\<lambda>(k, v). (k, if v = Undefined then Inr ''Error'' else js_to_string v)) ps)
                     ''name'' of
                None \<Rightarrow> Inr ''Error''
              | Some r \<Rightarrow> r)
             (\<lambda>name. Inr (if name = [] then m else if m = [] then name else name @ '': '' @ m)))"

text \<open>\<open>toLowerCase\<close> on code units below 256\<close>

definition lower_char :: "char \<Rightarrow> char" where
  "lower_char c =
     (let n = (of_char c :: nat)
      in if (65 \<le> n \<and> n \<le> 90) \<or> (192 \<le> n \<and> n \<le> 222 \<and> n \<noteq> 215)
         then char_of (n + 32) else c)"

definition toLowerCase :: "string \<Rightarrow> string" where
  "toLowerCase s = map lower_char s"

fun includes_str :: "string \<Rightarrow> string \<Rightarrow> bool" where
  "includes_str [] sub = (sub = [])"
| "includes_str (c # s) sub = (take (length sub) (c # s) = sub \<or> includes_str s sub)"

text \<open>\<open>s.replace(c, '')\<close> for a one-character pattern: the first occurrence is removed.\<close>

fun remove_first :: "char \<Rightarrow> string \<Rightarrow> string" where
  "remove_first c [] = []"
| "remove_first c (x # xs) = (if x = c then xs else x # remove_first c xs)"

definition is_digit :: "char \<Rightarrow> bool" where
  "is_digit c = (48 \<le> (of_char c :: nat) \<and> (of_char c :: nat) \<le> 57)"

fun digits_value :: "nat \<Rightarrow> string \<Rightarrow> nat" where
  "digits_value acc [] = acc"
| "digits_value acc (c # cs) = digits_value (acc * 10 + (of_char c - 48)) cs"

text \<open>
  \<open>parseInt(s, 10)\<close>: leading white space, a sign, then the longest run of digits; NaN
  when there is no digit.  The value of the digits is rounded to a double-precision
  number.
\<close>

definition parseInt :: "string \<Rightarrow> jsnum" where
  "parseInt s =
     (let t = dropWhile is_ws s;
          negative = (t \<noteq> [] \<and> hd t = CHR ''-'');
          u = (if t \<noteq> [] \<and> (hd t = CHR ''-'' \<or> hd t = CHR ''+'') then tl t else t);
          ds = takeWhile is_digit u
      in if ds = [] then NaN
         else to_double ((if negative then - 1 else 1) * int (digits_value 0 ds)))"

subsection \<open>The classifier\<close>

record ParsedError =
  userMessage :: string
  shouldResetKey :: "bool option"
  retryDelay :: "jsnum option"

text \<open>
  \<open>getErrorObject\<close>.  \<open>JSON_parse s\<close> is the value of \<open>JSON.parse(s)\<close>, and \<open>None\<close> when
  it throws.
\<close>

definition getErrorObject :: "(string \<Rightarrow> jsval option) \<Rightarrow> jsval \<Rightarrow> jsval" where
  "getErrorObject JSON_parse error =
     (case error of
        ErrorInst m ps \<Rightarrow>
          (if m \<noteq> []
           then (case JSON_parse m of Some v \<Rightarrow> v | None \<Rightarrow> error)
           else error)
      | Obj ps \<Rightarrow> error
      | Arr xs \<Rightarrow> error
      | _ \<Rightarrow> Null)"

text \<open>\<open>(apiError.message || '').toLowerCase()\<close>\<close>

definition lower_message :: "jsval \<Rightarrow> jsval + string" where
  "lower_message m =
     (case js_or m (Str []) of
        Str s \<Rightarrow> Inr (toLowerCase s)
      | _ \<Rightarrow> Inl (TypeError ''(intermediate value).toLowerCase is not a function''))"

text \<open>The two callbacks run over the details, from the first element on.\<close>

fun find_RetryInfo :: "jsval list \<Rightarrow> jsval + jsval" where
  "find_RetryInfo [] = Inr Undefined"
| "find_RetryInfo (d # ds) =
     andThen (get d ''@type'') (\<lambda>t.
       if t = Str ''type.googleapis.com/google.rpc.RetryInfo'' then Inr d
       else find_RetryInfo ds)"

fun some_API_KEY_INVALID :: "jsval list \<Rightarrow> jsval + jsval" where
  "some_API_KEY_INVALID [] = Inr (Bool False)"
| "some_API_KEY_INVALID (d # ds) =
     andThen (get d ''reason'') (\<lambda>r.
       if r = Str ''API_KEY_INVALID'' then Inr (Bool True)
       else some_API_KEY_INVALID ds)"

text \<open>
  \<open>apiError.details?.find(...)\<close> and \<open>apiError.details?.some(...)\<close>: undefined when
  there are no details, a type error when the details are not an array.
\<close>

definition details_find :: "jsval \<Rightarrow> jsval + jsval" where
  "details_find details =
     (if nullish details then Inr Undefined
      else case details of
             Arr ds \<Rightarrow> find_RetryInfo ds
           | _ \<Rightarrow> Inl (TypeError ''apiError.details?.find is not a function''))"

definition details_some :: "jsval \<Rightarrow> jsval + jsval" where
  "details_some details =
     (if nullish details then Inr Undefined
      else case details of
             Arr ds \<Rightarrow> some_API_KEY_INVALID ds
           | _ \<Rightarrow> Inl (TypeError ''apiError.details?.some is not a function''))"

definition handleGeminiError :: "(string \<Rightarrow> jsval option) \<Rightarrow> jsval \<Rightarrow> jsval + ParsedError" where
  "handleGeminiError JSON_parse error =
     (let errorObj = getErrorObject JSON_parse error in
      if truthy (opt_jsprop errorObj ''error'')
      then
        (let apiError = jsprop errorObj ''error'' in
         andThen (lower_message (jsprop apiError ''message'')) (\<lambda>message.
         let status = jsprop apiError ''status'';
             code = jsprop apiError ''code''
         in
         if status = Str ''RESOURCE_EXHAUSTED'' \<or> code = Num (IntNum 429)
         then
           andThen (details_find (jsprop apiError ''details'')) (\<lambda>retryInfo.
             if truthy (opt_jsprop retryInfo ''retryDelay'')
             then (case jsprop retryInfo ''retryDelay'' of
                     Str d \<Rightarrow>
                       (let delay = parseInt (remove_first CHR ''s'' d) in
                        Inr \<lparr>userMessage =
                               ''You've hit the API rate limit. Please try again in '' @
                               number_to_string delay @ '' seconds.'',
                             shouldResetKey = None,
                             retryDelay = Some delay\<rparr>)
                   | _ \<Rightarrow> Inl (TypeError ''retryInfo.retryDelay.replace is not a function''))
             else Inr \<lparr>userMessage =
                         ''You have exceeded your current API quota. Please check your plan and billing details.'',
                       shouldResetKey = None, retryDelay = None\<rparr>)
         else if includes_str message ''imagen api is only accessible to billed users''
         then Inr \<lparr>userMessage =
                     ''The Imagen API is only accessible to users with billing enabled. Please check your project settings and API key.'',
                   shouldResetKey = None, retryDelay = None\<rparr>
         else
           andThen (details_some (jsprop apiError ''details'')) (\<lambda>isInvalidKey.
             if truthy isInvalidKey \<or> status = Str ''INVALID_ARGUMENT''
             then (if includes_str message ''api key expired''
                   then Inr \<lparr>userMessage = ''Your API key has expired. Please renew it and try again.'',
                             shouldResetKey = None, retryDelay = None\<rparr>
                   else Inr \<lparr>userMessage =
                               ''Your API key is not valid. Please check your API key and try again.'',
                             shouldResetKey = None, retryDelay = None\<rparr>)
             else if includes_str message ''requested entity was not found''
             then Inr \<lparr>userMessage =
                         ''Your API key appears to be invalid or is not configured for this feature. Please select a valid key and try again.'',
                       shouldResetKey = Some True, retryDelay = None\<rparr>
             else
               andThen (js_to_string
                          (js_or (jsprop apiError ''message'') (js_or status (Str ''Unknown error''))))
                 (\<lambda>shown.
                    Inr \<lparr>userMessage = ''An API error occurred: '' @ shown,
                         shouldResetKey = None, retryDelay = None\<rparr>))))
      else
        andThen (case error of ErrorInst m ps \<Rightarrow> Inr m | _ \<Rightarrow> js_to_string error)
          (\<lambda>defaultMessage.
             Inr \<lparr>userMessage = ''An unexpected error occurred: '' @ defaultMessage,
                  shouldResetKey = None, retryDelay = None\<rparr>))"

subsection \<open>Inputs with the types of the API\<close>

definition string_or_falsy :: "jsval \<Rightarrow> bool" where
  "string_or_falsy v = (case v of Str s \<Rightarrow> True | _ \<Rightarrow> \<not> truthy v)"

definition well_typed_detail :: "jsval \<Rightarrow> bool" where
  "well_typed_detail d = (\<not> nullish d \<and> string_or_falsy (jsprop d ''retryDelay''))"

text \<open>
  The message and the status are strings or missing, the details are missing or an array
  of values that are not null, each retry delay a string or missing.
\<close>

definition well_typed_api_error :: "jsval \<Rightarrow> bool" where
  "well_typed_api_error apiError =
     (string_or_falsy (jsprop apiError ''message'') \<and>
      string_or_falsy (jsprop apiError ''status'') \<and>
      (case jsprop apiError ''details'' of
         Undefined \<Rightarrow> True
       | Null \<Rightarrow> True
       | Arr ds \<Rightarrow> list_all well_typed_detail ds
       | _ \<Rightarrow> False))"

definition convertible :: "jsval \<Rightarrow> bool" where
  "convertible error =
     (case error of
        ErrorInst m ps \<Rightarrow> True
      | _ \<Rightarrow> (case js_to_string error of Inr s \<Rightarrow> True | Inl e \<Rightarrow> False))"

text \<open>
  An input that carries a structured error with the types of the API, or carries none
  and can be converted to a string.
\<close>

definition classifiable :: "(string \<Rightarrow> jsval option) \<Rightarrow> jsval \<Rightarrow> bool" where
  "classifiable JSON_parse error =
     (let errorObj = getErrorObject JSON_parse error in
      if truthy (opt_jsprop errorObj ''error'')
      then well_typed_api_error (jsprop errorObj ''error'')
      else convertible error)"

text \<open>Example inputs.\<close>

definition quota_error :: "jsval \<Rightarrow> jsval" where
  "quota_error details =
     Obj [(''error'',
           Obj [(''code'', Num (IntNum 429)),
                (''message'', Str ''Resource has been exhausted (e.g. check quota).''),
                (''status'', Str ''RESOURCE_EXHAUSTED''),
                (''details'', details)])]"

definition retry_details :: jsval where
  "retry_details =
     Arr [Obj [(''@type'', Str ''type.googleapis.com/google.rpc.Help'')],
          Obj [(''@type'', Str ''type.googleapis.com/google.rpc.RetryInfo''),
               (''retryDelay'', Str ''5s'')]]"

definition expired_key_error :: jsval where
  "expired_key_error =
     Obj [(''error'',
           Obj [(''code'', Num (IntNum 400)),
                (''message'', Str ''API key expired. Please renew the API key.''),
                (''status'', Str ''INVALID_ARGUMENT'')])]"

text \<open>A parser that knows one text, the body of the expired-key response.\<close>

definition parse_example :: "string \<Rightarrow> jsval option" where
  "parse_example s = (if s = ''{expired-key response body}'' then Some expired_key_error else None)"

text \<open>
  The input carries the structured error \<open>apiError\<close>, whose message is a string or
  missing, and whose status is \<open>RESOURCE_EXHAUSTED\<close> or whose code is 429.
\<close>

definition quota_api_error :: "(string \<Rightarrow> jsval option) \<Rightarrow> jsval \<Rightarrow> jsval \<Rightarrow> bool" where
  "quota_api_error JSON_parse error apiError =
     (truthy (opt_jsprop (getErrorObject JSON_parse error) ''error'') \<and>
      apiError = jsprop (getErrorObject JSON_parse error) ''error'' \<and>
      string_or_falsy (jsprop apiError ''message'') \<and>
      (jsprop apiError ''status'' = Str ''RESOURCE_EXHAUSTED'' \<or>
       jsprop apiError ''code'' = Num (IntNum 429)))"

definition RetryInfo :: jsval where
  "RetryInfo = Str ''type.googleapis.com/google.rpc.RetryInfo''"

text \<open>Details with two retry hints, of which only the second has a delay.\<close>

definition two_retry_details :: jsval where
  "two_retry_details =
     Arr [Obj [(''@type'', Str ''type.googleapis.com/google.rpc.RetryInfo'')],
          Obj [(''@type'', Str ''type.googleapis.com/google.rpc.RetryInfo''),
               (''retryDelay'', Str ''5s'')]]"

section \<open>Chat submit (Chatbot.tsx)\<close>

record ChatMessage =
  role :: string
  text_msg :: string
  imageUrl :: "string option"
  sources :: "(string \<times> string) list option"

record ChatHistory =
  messages_of :: "ChatMessage list"
  title :: string
  studyMode_of :: bool
  researchMode_of :: bool

record HistoryItem =
  id_item :: string
  timestamp :: int
  data_item :: ChatHistory

text \<open>The attached image: the type of the file, its base64 text and its URL.\<close>

record image_file =
  file_type :: string
  base64 :: string
  url :: string

text \<open>
  A part of a request or of a response: inline data (type and base64 text) or text.  A
  message to the chat session is a list of parts or a text.
\<close>

datatype Part = inlineData string string | text_part string

datatype message = message_parts "Part list" | message_text string

text \<open>
  What the handler reads of a response of the chat session: its text, and the grounding
  chunks of its first candidate when it has them, each with its \<open>web\<close> source or without.
\<close>

record chat_response =
  response_text :: string
  groundingChunks :: "(string \<times> string) option list option"

text \<open>What the handler reads of a response with an image: the parts of each candidate.\<close>

record image_response =
  candidates :: "Part list list"

text \<open>
  The properties of the component.  The two callbacks belong to the parent; each returns
  or throws.
\<close>

record chat_props =
  historyItem :: "HistoryItem option"
  onNewChat :: "ChatHistory \<Rightarrow> jsval + string"
  onUpdateChat :: "string \<Rightarrow> ChatMessage list \<Rightarrow> string \<Rightarrow> bool \<Rightarrow> bool \<Rightarrow> jsval + unit"

text \<open>
  The state and the references of the component.  \<open>chatRef\<close> holds the \<open>sendMessage\<close>
  of the chat session, when there is one.
\<close>

record chat_state =
  messages :: "ChatMessage list"
  input :: string
  imageFile :: "image_file option"
  isLoading :: bool
  error_st :: "string option"
  studyMode :: bool
  researchMode :: bool
  retry :: retry_state
  chatRef :: "(message \<Rightarrow> jsval + chat_response) option"
  currentChatId :: "string option"

definition startsWith :: "string \<Rightarrow> string \<Rightarrow> bool" where
  "startsWith s p = (take (length p) s = p)"

text \<open>The loop over the parts of the first candidate: the first inline data gives the URL.\<close>

fun generatedImageUrl :: "Part list \<Rightarrow> string option" where
  "generatedImageUrl [] = None"
| "generatedImageUrl (inlineData mimeType d # ps) = Some (''data:image/png;base64,'' @ d)"
| "generatedImageUrl (text_part t # ps) = generatedImageUrl ps"

text \<open>\<open>groundingChunks?.map(chunk => chunk.web).filter(Boolean)\<close>\<close>

definition sources_of :: "(string \<times> string) option list option \<Rightarrow> (string \<times> string) list option" where
  "sources_of chunks =
     map_option (\<lambda>cs. concat (map (\<lambda>w. case w of None \<Rightarrow> [] | Some x \<Rightarrow> [x]) cs)) chunks"

text \<open>\<open>if (chatId)\<close>: null and the empty string are falsy.\<close>

definition truthy_id :: "string option \<Rightarrow> string option" where
  "truthy_id chatId = (if chatId = Some [] then None else chatId)"

text \<open>
  \<open>onUpdateChat(chatId, finalMessages, (historyItem.data as ChatHistory).title, ...)\<close>:
  the arguments are evaluated first, and reading \<open>data\<close> of an undefined \<open>historyItem\<close>
  throws.
\<close>

definition update_chat :: "chat_props \<Rightarrow> string \<Rightarrow> ChatMessage list \<Rightarrow> bool \<Rightarrow> bool \<Rightarrow> jsval + unit" where
  "update_chat props chatId finalMessages study research =
     (case historyItem props of
        None \<Rightarrow> Inl (TypeError ''Cannot read properties of undefined (reading 'data')'')
      | Some h \<Rightarrow> onUpdateChat props chatId finalMessages (title (data_item h)) study research)"

text \<open>
  The body of the \<open>try\<close> block: the value thrown, if any, and the state at that
  moment.  \<open>generateContent\<close> is the call of the image model, which returns or throws.
\<close>

definition submit_try ::
  "(Part list \<Rightarrow> jsval + image_response) \<Rightarrow> chat_props \<Rightarrow> string \<Rightarrow> image_file option \<Rightarrow>
   ChatMessage list \<Rightarrow> chat_state \<Rightarrow> jsval option \<times> chat_state" where
  "submit_try generateContent props currentInput currentImageFile newMessages st =
     (let chatId = currentChatId st in
      if startsWith (toLowerCase (trim currentInput)) ''/create ''
      then
        (let imagePrompt = drop 8 (trim currentInput);
             parts = (case currentImageFile of
                        None \<Rightarrow> []
                      | Some f \<Rightarrow> [inlineData (file_type f) (base64 f)]) @
                     [text_part imagePrompt]
         in case generateContent parts of
              Inl e \<Rightarrow> (Some e, st)
            | Inr response \<Rightarrow>
                (case candidates response of
                   [] \<Rightarrow>
                     (Some (TypeError ''Cannot read properties of undefined (reading 'content')''),
                      st)
                 | content # rest \<Rightarrow>
                     (case generatedImageUrl content of
                        None \<Rightarrow>
                          (Some (new_Error ''Image generation failed to return an image.''), st)
                      | Some imageUrl' \<Rightarrow>
                          (let modelMessage =
                                 \<lparr>role = ''model'',
                                  text_msg = ''Here is the image you requested for: '' @
                                             [CHR 0x22] @ imagePrompt @ [CHR 0x22],
                                  imageUrl = Some imageUrl', sources = None\<rparr>;
                               finalMessages = newMessages @ [modelMessage];
                               st' = st\<lparr>messages := finalMessages\<rparr>
                           in case truthy_id chatId of
                                Some cid \<Rightarrow>
                                  (case update_chat props cid finalMessages
                                          (studyMode st) (researchMode st) of
                                     Inl e \<Rightarrow> (Some e, st')
                                   | Inr u \<Rightarrow> (None, st'))
                              | None \<Rightarrow>
                                  (case onNewChat props
                                          \<lparr>messages_of = finalMessages,
                                           title = ''Image: '' @ take 20 imagePrompt @ ''...'',
                                           studyMode_of = studyMode st,
                                           researchMode_of = researchMode st\<rparr> of
                                     Inl e \<Rightarrow> (Some e, st')
                                   | Inr newChatId \<Rightarrow> (None, st'))))))
      else
        (case chatRef st of
           None \<Rightarrow> (Some (new_Error ''Chat session not initialized.''), st)
         | Some sendMessage \<Rightarrow>
             (case sendMessage
                     (case currentImageFile of
                        Some f \<Rightarrow>
                          message_parts [inlineData (file_type f) (base64 f), text_part currentInput]
                      | None \<Rightarrow> message_text currentInput) of
                Inl e \<Rightarrow> (Some e, st)
              | Inr response \<Rightarrow>
                  (let modelMessage =
                         \<lparr>role = ''model'', text_msg = response_text response,
                          imageUrl = None, sources = sources_of (groundingChunks response)\<rparr>;
                       finalMessages = newMessages @ [modelMessage];
                       st' = st\<lparr>messages := finalMessages\<rparr>
                   in case truthy_id chatId of
                        Some cid \<Rightarrow>
                          (case update_chat props cid finalMessages
                                  (studyMode st) (researchMode st) of
                             Inl e \<Rightarrow> (Some e, st')
                           | Inr u \<Rightarrow> (None, st'))
                      | None \<Rightarrow>
                          (case onNewChat props
                                  \<lparr>messages_of = finalMessages,
                                   title = take 30 currentInput @
                                           (if length currentInput > 30 then ''...'' else []),
                                   studyMode_of = studyMode st,
                                   researchMode_of = researchMode st\<rparr> of
                             Inl e \<Rightarrow> (Some e, st')
                           | Inr newChatId \<Rightarrow>
                               (None, st'\<lparr>currentChatId := Some newChatId\<rparr>))))))"

text \<open>
  \<open>handleSubmit\<close>, from the state of the render that it closes over to the state when
  its promise settles, with the value of the rejection if the promise is rejected.
  \<open>API_KEY\<close> is \<open>process.env.API_KEY\<close>.  The \<open>catch\<close> block ends with
  \<open>setMessages(prev => prev.slice(0, prev.length - 1))\<close>, which drops the last message
  of the list at that moment; if the classifier throws there, the rest of the block is
  not run.
\<close>

definition handleSubmit ::
  "string option \<Rightarrow> (string \<Rightarrow> jsval option) \<Rightarrow> (Part list \<Rightarrow> jsval + image_response) \<Rightarrow>
   chat_props \<Rightarrow> chat_state \<Rightarrow> jsval option \<times> chat_state" where
  "handleSubmit API_KEY JSON_parse generateContent props st =
     (if trim (input st) = [] \<or> isLoading st \<or> js_less (IntNum 0) (retryAfter (retry st))
      then (None, st)
      else if API_KEY = None \<or> API_KEY = Some []
      then (None, st\<lparr>error_st := Some ''API key is not configured.''\<rparr>)
      else
        (let currentInput = input st;
             currentImageFile = imageFile st;
             user_message =
               \<lparr>role = ''user'', text_msg = currentInput,
                imageUrl = map_option (\<lambda>f. ''data:'' @ file_type f @ '';base64,'' @ base64 f)
                             currentImageFile,
                sources = None\<rparr>;
             newMessages = messages st @ [user_message];
             running = st\<lparr>error_st := None, retry := cancel_retry (retry st), input := [],
                          imageFile := None, messages := newMessages, isLoading := True\<rparr>
         in case submit_try generateContent props currentInput currentImageFile newMessages
                   running of
              (None, st') \<Rightarrow> (None, st'\<lparr>isLoading := False\<rparr>)
            | (Some e, st') \<Rightarrow>
                (case handleGeminiError JSON_parse e of
                   Inl e' \<Rightarrow> (Some e', st'\<lparr>isLoading := False\<rparr>)
                 | Inr parsed \<Rightarrow>
                     (None,
                      st'\<lparr>error_st := Some (''Failed to get response: '' @ userMessage parsed),
                          retry := arm_retry (retryDelay parsed) (retry st'),
                          messages := butlast (messages st'),
                          isLoading := False\<rparr>))))"

text \<open>
  A new chat: no history item, no chat identifier, a session that answers every message,
  and a parent whose \<open>onNewChat\<close> returns the identifier \<open>chat-1\<close>.
\<close>

definition chat_session :: "message \<Rightarrow> jsval + chat_response" where
  "chat_session m = Inr \<lparr>response_text = ''Hello!'', groundingChunks = None\<rparr>"

definition new_chat_props :: chat_props where
  "new_chat_props =
     \<lparr>historyItem = None, onNewChat = (\<lambda>h. Inr ''chat-1''),
      onUpdateChat = (\<lambda>chatId ms t study research. Inr ())\<rparr>"

definition new_chat_state :: "string \<Rightarrow> chat_state" where
  "new_chat_state typed =
     \<lparr>messages = [], input = typed, imageFile = None, isLoading = False, error_st = None,
      studyMode = False, researchMode = False, retry = retry_init,
      chatRef = Some chat_session, currentChatId = None\<rparr>"

definition no_image_model :: "Part list \<Rightarrow> jsval + image_response" where
  "no_image_model parts = Inl (new_Error ''unavailable'')"
section \<open>Evaluation of digits\<close>

lemma digits_of_5: "digits_of 5 = ''5''"
  by code_simp

lemma digits_of_9: "digits_of 9 = ''9''"
  by code_simp

lemma andThen_Inr [simp]: "andThen (Inr a) f = f a"
  by (simp add: andThen_def)

section \<open>Properties of the task list\<close>

lemma tasks_handleUpdateHistory [simp]:
  "tasks (handleUpdateHistory newId ts st) = tasks st"
  by (simp add: handleUpdateHistory_def)

lemma tasks_handleToggleComplete:
  "tasks (handleToggleComplete taskId newId st) =
     map (\<lambda>task. if id_task task = taskId then task\<lparr>completed := \<not> completed task\<rparr> else task)
         (tasks st)"
  by (simp add: handleToggleComplete_def Let_def)

lemma tasks_handleDeleteTask:
  "tasks (handleDeleteTask taskId newId st) = filter (\<lambda>task. id_task task \<noteq> taskId) (tasks st)"
  by (simp add: handleDeleteTask_def Let_def)

lemma tasks_handleEditTask:
  "tasks (handleEditTask newId st) =
     (if \<not> truthy_str (editingTaskId st) \<or> trim (editingTaskText st) = [] then tasks st
      else map (\<lambda>task. if Some (id_task task) = editingTaskId st
                         then task\<lparr>text_task := trim (editingTaskText st)\<rparr> else task) (tasks st))"
  by (simp add: handleEditTask_def Let_def)

lemma tasks_handleAddTask:
  "tasks (handleAddTask now newId st) =
     (if trim (newTaskText st) = [] then tasks st
      else tasks st @ [\<lparr>id_task = ''task-'' @ digits_of now,
                         text_task = trim (newTaskText st), completed = False\<rparr>])"
  by (simp add: handleAddTask_def Let_def)

lemma ids_toggle: "ids (handleToggleComplete taskId newId st) = ids st"
  by (simp add: ids_def tasks_handleToggleComplete o_def cong: map_cong)

lemma ids_edit: "ids (handleEditTask newId st) = ids st"
  by (simp add: ids_def tasks_handleEditTask o_def cong: map_cong)

lemma ids_delete: "ids (handleDeleteTask taskId newId st) = filter (\<lambda>i. i \<noteq> taskId) (ids st)"
  by (simp add: ids_def tasks_handleDeleteTask filter_map o_def)

lemma ids_add:
  "ids (handleAddTask now newId st) =
     (if trim (newTaskText st) = [] then ids st else ids st @ [''task-'' @ digits_of now])"
  by (simp add: ids_def tasks_handleAddTask)

lemma toggle_absent:
  "taskId \<notin> set (map id_task ts) \<Longrightarrow>
   map (\<lambda>task. if id_task task = taskId then task\<lparr>completed := \<not> completed task\<rparr> else task) ts = ts"
  by (induction ts) auto

text \<open>
  Claim C10.  Toggling the completion of \<open>taskId\<close> keeps the length of the list, the
  sequence of ids and the sequence of texts; at every position the task is the old one
  with \<open>completed\<close> negated when its id is \<open>taskId\<close>, and the old one unchanged
  otherwise; when no task has the id \<open>taskId\<close> the list is returned unchanged.
\<close>

theorem toggle_frame:
  "length (tasks (handleToggleComplete taskId newId st)) = length (tasks st) \<and>
   ids (handleToggleComplete taskId newId st) = ids st \<and>
   map text_task (tasks (handleToggleComplete taskId newId st)) = map text_task (tasks st) \<and>
   (\<forall>i < length (tasks st).
      tasks (handleToggleComplete taskId newId st) ! i =
        (if id_task (tasks st ! i) = taskId
         then (tasks st ! i)\<lparr>completed := \<not> completed (tasks st ! i)\<rparr>
         else tasks st ! i)) \<and>
   (taskId \<notin> set (ids st) \<longrightarrow> tasks (handleToggleComplete taskId newId st) = tasks st)"
  by (simp add: ids_toggle toggle_absent ids_def tasks_handleToggleComplete o_def)

theorem toggle_frame_witness:
  "(1::nat) < length (tasks todo_example) \<and>
   tasks (handleToggleComplete ''task-7'' ''list-1'' todo_example) ! 1 =
     \<lparr>id_task = ''task-7'', text_task = ''eggs'', completed = False\<rparr> \<and>
   tasks (handleToggleComplete ''task-7'' ''list-1'' todo_example) ! 0 =
     \<lparr>id_task = ''task-5'', text_task = ''milk'', completed = False\<rparr> \<and>
   ''task-9'' \<notin> set (ids todo_example) \<and>
   tasks (handleToggleComplete ''task-9'' ''list-1'' todo_example) = tasks todo_example"
  using toggle_frame [of "''task-7''" "''list-1''" todo_example]
        toggle_frame [of "''task-9''" "''list-1''" todo_example]
  by (simp add: todo_example_def ids_def)

text \<open>
  Claim C8, as stated, fails for adding: the new id is \<open>task-\<close> followed by the clock
  value, and nothing compares it with the ids already in the list.  Adding at clock
  value 5 to a list that holds \<open>task-5\<close> gives two tasks with that id.
\<close>

theorem add_duplicate_id_counterexample:
  "distinct (ids todo_example) \<and> \<not> distinct (ids (handleAddTask 5 ''list-1'' todo_example))"
  by (simp add: ids_add digits_of_5) (simp add: todo_example_def ids_def trim_def is_ws_def)

text \<open>
  Claim C8, amended.  On a list with unique ids, toggling and editing leave the sequence
  of ids as it is, deleting keeps the remaining ids in their order, and all three keep
  the ids unique.  Adding appends one task with the id \<open>task-\<close> followed by the clock
  value at the end (and changes nothing when the new text is blank); the ids stay unique
  when that id is not yet in the list.
\<close>

theorem todo_ids_preserved:
  assumes "distinct (ids st)"
  shows "ids (handleToggleComplete taskId newId st) = ids st \<and>
         distinct (ids (handleToggleComplete taskId newId st)) \<and>
         ids (handleEditTask newId st) = ids st \<and>
         distinct (ids (handleEditTask newId st)) \<and>
         ids (handleDeleteTask taskId newId st) = filter (\<lambda>i. i \<noteq> taskId) (ids st) \<and>
         distinct (ids (handleDeleteTask taskId newId st)) \<and>
         ids (handleAddTask now newId st) =
           (if trim (newTaskText st) = [] then ids st else ids st @ [''task-'' @ digits_of now]) \<and>
         (''task-'' @ digits_of now \<notin> set (ids st) \<longrightarrow>
            distinct (ids (handleAddTask now newId st)))"
  using assms by (simp add: ids_toggle ids_edit ids_delete ids_add)

theorem todo_ids_preserved_witness:
  "distinct (ids todo_example) \<and>
   ''task-'' @ digits_of 9 \<notin> set (ids todo_example) \<and>
   ids (handleAddTask 9 ''list-1'' todo_example) = [''task-5'', ''task-7'', ''task-9''] \<and>
   distinct (ids (handleAddTask 9 ''list-1'' todo_example)) \<and>
   ids (handleDeleteTask ''task-5'' ''list-1'' todo_example) = [''task-7''] \<and>
   ids (handleEditTask ''list-1'' todo_example) = [''task-5'', ''task-7'']"
proof -
  have d: "distinct (ids todo_example)"
    by (simp add: todo_example_def ids_def)
  have t: "trim (newTaskText todo_example) \<noteq> []"
    by (simp add: todo_example_def trim_def is_ws_def)
  have i: "ids todo_example = [''task-5'', ''task-7'']"
    by (simp add: todo_example_def ids_def)
  show ?thesis
    using todo_ids_preserved [OF d, of "''task-5''" "''list-1''" 9] t
    by (simp add: i digits_of_9)
qed

section \<open>Properties of the numbers\<close>

lemma bit_length_0: "bit_length 0 = 0"
  by (simp add: bit_length.simps [of 0])

lemma bit_length_le: "n < 2 ^ k \<Longrightarrow> bit_length n \<le> k"
proof (induction k arbitrary: n)
  case 0
  then show ?case by (simp add: bit_length_0)
next
  case (Suc k)
  show ?case
  proof (cases "n = 0")
    case True
    then show ?thesis by (simp add: bit_length_0)
  next
    case False
    have "n div 2 < 2 ^ k" using Suc.prems by simp
    then have "bit_length (n div 2) \<le> k" by (rule Suc.IH)
    with False show ?thesis by (simp add: bit_length.simps [of n])
  qed
qed

lemma round_double_exact: "\<bar>x\<bar> < 2 ^ 53 \<Longrightarrow> round_double x = x"
proof -
  assume "\<bar>x\<bar> < 2 ^ 53"
  then have "nat \<bar>x\<bar> < 2 ^ 53" by simp
  then have "bit_length (nat \<bar>x\<bar>) \<le> 53" by (rule bit_length_le)
  then show ?thesis by (simp add: round_double_def Let_def)
qed

lemma double_limit_large: "2 ^ 53 \<le> double_limit"
  unfolding double_limit_def by (intro power_increasing) simp_all

lemma to_double_exact: "\<bar>x\<bar> < 2 ^ 53 \<Longrightarrow> to_double x = IntNum x"
proof -
  assume a: "\<bar>x\<bar> < 2 ^ 53"
  then have "x < double_limit" "- double_limit < x"
    using double_limit_large by linarith+
  then show ?thesis using a by (simp add: to_double_def round_double_exact Let_def)
qed

lemma bit_length_eq: "2 ^ k \<le> n \<Longrightarrow> n < 2 ^ Suc k \<Longrightarrow> bit_length n = Suc k"
proof (induction k arbitrary: n)
  case 0
  then have "n = Suc 0" by simp
  then show ?case by (simp add: bit_length.simps [of "Suc 0"] bit_length_0)
next
  case (Suc k)
  have "2 ^ k \<le> n div 2" using Suc.prems(1) by simp
  moreover have "n div 2 < 2 ^ Suc k" using Suc.prems(2) by simp
  ultimately have "bit_length (n div 2) = Suc k" by (rule Suc.IH)
  moreover have "(0::nat) < 2 ^ Suc k" by simp
  then have "n \<noteq> 0" using Suc.prems(1) by linarith
  ultimately show ?case by (simp add: bit_length.simps [of n])
qed





section \<open>Properties of the operation poller\<close>

lemma pollLoop_unfold:
  "\<not> done_op (currentOperation s) \<Longrightarrow> polls s < maxPolls \<Longrightarrow>
   pollLoop g s =
     pollLoop g (s\<lparr>polls := polls s + 1,
                loadingMessage := loadingMessages ! (messageIndex s mod length loadingMessages),
                messageIndex := messageIndex s + 1,
                currentOperation :=
                  (case g (polls s + 1) (currentOperation s) of
                     Inl e \<Rightarrow> currentOperation s
                   | Inr op' \<Rightarrow> op')\<rparr>)"
  by (subst pollLoop.simps) simp

lemma pollLoop_done:
  "done_op (currentOperation s) \<Longrightarrow> pollLoop g s = (Inr (currentOperation s), s)"
  by (subst pollLoop.simps) simp

lemma pollLoop_timeout:
  "(\<forall>n c op'. g n c = Inr op' \<longrightarrow> \<not> done_op op') \<Longrightarrow>
   \<not> done_op (currentOperation s) \<Longrightarrow> polls s \<le> maxPolls \<Longrightarrow>
         fst (pollLoop g s) = Inl (new_Error ''Video generation timed out after 5 minutes.'') \<and>
         polls (snd (pollLoop g s)) = maxPolls"
proof (induction g s rule: pollLoop.induct)
  case (1 g s)
  show ?case
  proof (cases "polls s \<ge> maxPolls")
    case True
    with 1 show ?thesis by (simp add: pollLoop.simps [of g s])
  next
    case False
    let ?s' = "s\<lparr>polls := polls s + 1,
                loadingMessage := loadingMessages ! (messageIndex s mod length loadingMessages),
                messageIndex := messageIndex s + 1,
                currentOperation :=
                  (case g (polls s + 1) (currentOperation s) of
                     Inl e \<Rightarrow> currentOperation s
                   | Inr op' \<Rightarrow> op')\<rparr>"
    have nd: "\<not> done_op (currentOperation ?s')"
      using "1.prems" by (auto split: sum.splits)
    have "pollLoop g s = pollLoop g ?s'"
      using False "1.prems" by (simp add: pollLoop_unfold)
    moreover have "fst (pollLoop g ?s') = Inl (new_Error ''Video generation timed out after 5 minutes.'') \<and>
         polls (snd (pollLoop g ?s')) = maxPolls"
      using "1.IH" [OF _ _ "1.prems"(1) nd] False "1.prems" by simp
    ultimately show ?thesis by simp
  qed
qed

lemma pollLoop_step:
  "\<not> done_op c \<Longrightarrow> p < maxPolls \<Longrightarrow>
   pollLoop g \<lparr>currentOperation = c, messageIndex = m, polls = p, loadingMessage = l\<rparr> =
   pollLoop g \<lparr>currentOperation = (case g (Suc p) c of Inl e \<Rightarrow> c | Inr op' \<Rightarrow> op'),
               messageIndex = Suc m, polls = Suc p,
               loadingMessage = loadingMessages ! (m mod length loadingMessages)\<rparr>"
  by (subst pollLoop.simps) (simp cong: sum.case_cong)

lemma pollLoop_third:
  assumes nd0: "\<not> done_op op0"
    and s1: "\<And>op'. g 1 op0 = Inr op' \<Longrightarrow> \<not> done_op op'"
    and s2: "\<And>c op'. g 2 c = Inr op' \<Longrightarrow> \<not> done_op op'"
    and s3: "\<And>c. g 3 c = Inr op3" and d3: "done_op op3"
  shows "pollOperation g op0 shown =
     (Inr op3, \<lparr>currentOperation = op3, messageIndex = 4, polls = 3,
                 loadingMessage = loadingMessages ! 3\<rparr>)"
proof -
  define c1 where "c1 = (case g (Suc 0) op0 of Inl e \<Rightarrow> op0 | Inr op' \<Rightarrow> op')"
  define c2 where "c2 = (case g (Suc (Suc 0)) c1 of Inl e \<Rightarrow> c1 | Inr op' \<Rightarrow> op')"
  have n1: "\<not> done_op c1" using nd0 s1 by (auto simp: c1_def split: sum.splits)
  have n2: "\<not> done_op c2" using n1 s2 [of c1] by (auto simp: c2_def numeral_2_eq_2 split: sum.splits)
  have c3: "(case g (Suc (Suc (Suc 0))) c2 of Inl e \<Rightarrow> c2 | Inr op' \<Rightarrow> op') = op3"
    using s3 [of c2] by (simp add: numeral_3_eq_3)
  have m: "(0::nat) < maxPolls" "Suc 0 < maxPolls" "Suc (Suc 0) < maxPolls"
    by (simp_all add: maxPolls_def)
  have l: "length loadingMessages = 7" by (simp add: loadingMessages_def)
  have "pollOperation g op0 shown =
          pollLoop g \<lparr>currentOperation = op0, messageIndex = Suc 0, polls = 0, loadingMessage = shown\<rparr>"
    by (simp add: pollOperation_def)
  also have "\<dots> = pollLoop g \<lparr>currentOperation = c1, messageIndex = Suc (Suc 0), polls = Suc 0,
                 loadingMessage = loadingMessages ! (Suc 0 mod length loadingMessages)\<rparr>"
    unfolding c1_def by (rule pollLoop_step [OF nd0 m(1)])
  also have "\<dots> = pollLoop g \<lparr>currentOperation = c2, messageIndex = Suc (Suc (Suc 0)), polls = Suc (Suc 0),
                 loadingMessage = loadingMessages ! (Suc (Suc 0) mod length loadingMessages)\<rparr>"
    unfolding c2_def by (rule pollLoop_step [OF n1 m(2)])
  also have "\<dots> = pollLoop g \<lparr>currentOperation = op3, messageIndex = Suc (Suc (Suc (Suc 0))), polls = Suc (Suc (Suc 0)),
                 loadingMessage = loadingMessages ! (Suc (Suc (Suc 0)) mod length loadingMessages)\<rparr>"
    using pollLoop_step [OF n2 m(3), of g] by (simp only: c3)
  also have "\<dots> = (Inr op3, \<lparr>currentOperation = op3, messageIndex = Suc (Suc (Suc (Suc 0))), polls = Suc (Suc (Suc 0)),
                 loadingMessage = loadingMessages ! (Suc (Suc (Suc 0)) mod length loadingMessages)\<rparr>)"
    using d3 by (simp add: pollLoop_done)
  finally have r: "pollOperation g op0 shown = (Inr op3, \<lparr>currentOperation = op3, messageIndex = Suc (Suc (Suc (Suc 0))), polls = Suc (Suc (Suc 0)),
                 loadingMessage = loadingMessages ! (Suc (Suc (Suc 0)) mod length loadingMessages)\<rparr>)" .
  have e: "Suc (Suc (Suc (Suc 0))) = 4" "Suc (Suc (Suc 0)) = 3" "Suc (Suc (Suc 0)) mod length loadingMessages = 3"
    by (simp_all add: l)
  show ?thesis unfolding r using e by (simp only: l)
qed


text \<open>
  Claim C5.  Started on an operation that is not done: when no poll step ever resolves
  to a done operation (steps may also fail), \<open>pollOperation\<close> throws the time-out
  error after exactly 30 calls of the poll step; when the first two steps do not report
  done (or fail) and the third resolves to a done operation, that operation is returned
  after exactly 3 calls; and a poll step that throws leaves the current operation as it
  was and the loop goes on with the next attempt.
\<close>

theorem pollOperation_bounded:
  "(\<not> done_op op0 \<and> (\<forall>n c op'. g n c = Inr op' \<longrightarrow> \<not> done_op op') \<longrightarrow>
      fst (pollOperation g op0 shown) =
        Inl (new_Error ''Video generation timed out after 5 minutes.'') \<and>
      polls (snd (pollOperation g op0 shown)) = 30) \<and>
   (\<not> done_op op0 \<and> (\<forall>op'. g 1 op0 = Inr op' \<longrightarrow> \<not> done_op op') \<and>
    (\<forall>c op'. g 2 c = Inr op' \<longrightarrow> \<not> done_op op') \<and> (\<forall>c. g 3 c = Inr op3) \<and> done_op op3 \<longrightarrow>
      fst (pollOperation g op0 shown) = Inr op3 \<and>
      polls (snd (pollOperation g op0 shown)) = 3) \<and>
   (\<not> done_op (currentOperation s) \<and> polls s < maxPolls \<and>
    g (polls s + 1) (currentOperation s) = Inl e \<longrightarrow>
      pollLoop g s =
        pollLoop g (s\<lparr>polls := polls s + 1,
                     loadingMessage := loadingMessages ! (messageIndex s mod length loadingMessages),
                     messageIndex := messageIndex s + 1\<rparr>))"
proof (intro conjI impI)
  assume a: "\<not> done_op op0 \<and> (\<forall>n c op'. g n c = Inr op' \<longrightarrow> \<not> done_op op')"
  have "fst (pollOperation g op0 shown) =
          Inl (new_Error ''Video generation timed out after 5 minutes.'') \<and>
        polls (snd (pollOperation g op0 shown)) = maxPolls"
    unfolding pollOperation_def using a by (intro pollLoop_timeout) simp_all
  then show "fst (pollOperation g op0 shown) =
          Inl (new_Error ''Video generation timed out after 5 minutes.'')"
    and "polls (snd (pollOperation g op0 shown)) = 30"
    by (simp_all add: maxPolls_def)
next
  assume a: "\<not> done_op op0 \<and> (\<forall>op'. g 1 op0 = Inr op' \<longrightarrow> \<not> done_op op') \<and>
    (\<forall>c op'. g 2 c = Inr op' \<longrightarrow> \<not> done_op op') \<and> (\<forall>c. g 3 c = Inr op3) \<and> done_op op3"
  have "pollOperation g op0 shown =
     (Inr op3, \<lparr>currentOperation = op3, messageIndex = 4, polls = 3,
                 loadingMessage = loadingMessages ! 3\<rparr>)"
    using a by (intro pollLoop_third) blast+
  then show "fst (pollOperation g op0 shown) = Inr op3"
    and "polls (snd (pollOperation g op0 shown)) = 3"
    by simp_all
next
  assume a: "\<not> done_op (currentOperation s) \<and> polls s < maxPolls \<and>
    g (polls s + 1) (currentOperation s) = Inl e"
  then show "pollLoop g s =
        pollLoop g (s\<lparr>polls := polls s + 1,
                     loadingMessage := loadingMessages ! (messageIndex s mod length loadingMessages),
                     messageIndex := messageIndex s + 1\<rparr>)"
    by (subst pollLoop.simps) simp
qed

theorem pollOperation_bounded_witness:
  "\<not> done_op pending \<and>
   fst (pollOperation always_failing pending ''Warming up'') =
     Inl (new_Error ''Video generation timed out after 5 minutes.'') \<and>
   polls (snd (pollOperation always_failing pending ''Warming up'')) = 30 \<and>
   fst (pollOperation done_on_third pending ''Warming up'') =
     Inr \<lparr>done_op = True, video_uri = Some ''https://video''\<rparr> \<and>
   polls (snd (pollOperation done_on_third pending ''Warming up'')) = 3 \<and>
   pollLoop done_on_third
     \<lparr>currentOperation = pending, messageIndex = 1, polls = 1, loadingMessage = ''Rendering''\<rparr> =
   pollLoop done_on_third
     \<lparr>currentOperation = pending, messageIndex = 2, polls = 2,
      loadingMessage = ''Rendering the first few frames...''\<rparr>"
  using pollOperation_bounded [of pending always_failing "''Warming up''" undefined
          "\<lparr>currentOperation = pending, messageIndex = 0, polls = 30, loadingMessage = []\<rparr>" undefined]
        pollOperation_bounded [of pending done_on_third "''Warming up''"
          "\<lparr>done_op = True, video_uri = Some ''https://video''\<rparr>"
          "\<lparr>currentOperation = pending, messageIndex = 1, polls = 1, loadingMessage = ''Rendering''\<rparr>"
          "new_Error ''network''"]
  by (simp add: pending_def always_failing_def done_on_third_def maxPolls_def loadingMessages_def
        numeral_2_eq_2)

section \<open>Properties of the retry countdown\<close>

lemma cancel_retry_live:
  assumes "one_timer st"
  shows "live (cancel_retry st) = [] \<and> retryAfter (cancel_retry st) = IntNum 0 \<and>
     nextTimer (cancel_retry st) = nextTimer st \<and> timerRef (cancel_retry st) = timerRef st"
proof (cases "timerRef st")
  case None
  with assms have "live st = []" by (cases "live st") (auto simp: one_timer_def)
  with None show ?thesis by (simp add: cancel_retry_def clear_timerRef_def)
next
  case (Some a)
  with assms have all: "\<forall>h \<in> set (live st). h = a \<and> 0 < h" by (auto simp: one_timer_def)
  show ?thesis
  proof (cases "a = 0")
    case True
    with all have "live st = []" by (cases "live st") auto
    with Some True show ?thesis by (simp add: cancel_retry_def clear_timerRef_def)
  next
    case False
    from all have "removeAll a (live st) = []"
      by (simp add: removeAll_filter_not_eq filter_empty_conv)
    with Some False show ?thesis
      by (simp add: cancel_retry_def clear_timerRef_def clearInterval_def)
  qed
qed








lemma one_timer_cancel: "one_timer st \<Longrightarrow> one_timer (cancel_retry st)"
  using cancel_retry_live [of st] by (simp add: one_timer_def)

lemma one_timer_tick:
  assumes "one_timer st"
  shows "one_timer (tick h st)"
proof -
  have sub: "set (live (tick h st)) \<subseteq> set (live st)"
    by (cases "timerRef st") (simp_all add: tick_def clear_timerRef_def clearInterval_def)
  have same: "timerRef (tick h st) = timerRef st" "nextTimer (tick h st) = nextTimer st"
    by (cases "timerRef st"; simp add: tick_def clear_timerRef_def clearInterval_def)+
  show ?thesis
    using assms sub unfolding one_timer_def same by blast
qed

text \<open>
  Two arming steps with no cancelling step after the first, as two runs of the handler
  give them when both start before either request has failed: the first timer stays
  live, and the cancelling step clears only the second.
\<close>

lemma arm_twice_leaves_timer:
  "live (arm_retry (Some (IntNum 5)) (arm_retry (Some (IntNum 5)) (cancel_retry (cancel_retry retry_init)))) = [2, 1] \<and>
   live (cancel_retry
           (arm_retry (Some (IntNum 5)) (arm_retry (Some (IntNum 5)) (cancel_retry (cancel_retry retry_init))))) = [1]"
  by (simp add: arm_retry_def cancel_retry_def clear_timerRef_def clearInterval_def retry_init_def)





section \<open>Properties of the WAV writer\<close>

lemma list_update_Cons_numeral:
  "(x # xs)[numeral k := v] = x # xs[pred_numeral k := v]"
  by (simp add: numeral_eq_Suc)

lemma replicate_44: "replicate 44 (0::byte) = [0,0,0,0,0,0,0,0,0,0,0,0,0,0,0,0,0,0,0,0,0,0,0,0,0,0,0,0,0,0,0,0,0,0,0,0,0,0,0,0,0,0,0,0]"
  by (simp add: eval_nat_numeral)

lemma uint_byte_of_int: "uint (of_int v :: byte) = v mod 256"
  by (simp add: uint_word_of_int)

lemma split_mod_256: "(v::int) mod (256 * m) = 256 * (v div 256 mod m) + v mod 256" if "0 \<le> m"
  using that by (rule zmod_zmult2_eq)

lemma read_le_le16: "read_le (le16 v) = v mod 65536"
  using split_mod_256 [of 256 v] by (simp add: le16_def uint_byte_of_int)

lemma read_le_le32: "read_le (le32 v) = v mod 4294967296"
proof -
  define b0 where "b0 = v mod 256"
  define b1 where "b1 = v div 256 mod 256"
  define b2 where "b2 = v div 65536 mod 256"
  define b3 where "b3 = v div 16777216 mod 256"
  define A where "A = v div 256 mod 16777216"
  define B where "B = v div 65536 mod 65536"
  have d: "v div 256 div 256 = v div 65536" "v div 65536 div 256 = v div 16777216"
    by (simp_all add: zdiv_zmult2_eq)
  have e1: "v mod 4294967296 = 256 * A + b0"
    unfolding A_def b0_def using split_mod_256 [of 16777216 v] by simp
  have e2: "A = 256 * B + b1"
    unfolding A_def B_def b1_def using split_mod_256 [of 65536 "v div 256"] by (simp add: d)
  have e3: "B = 256 * b3 + b2"
    unfolding B_def b2_def b3_def using split_mod_256 [of 256 "v div 65536"] by (simp add: d)
  have r: "read_le (le32 v) = b0 + 256 * (b1 + 256 * (b2 + 256 * (b3 + 256 * 0)))"
    unfolding b0_def b1_def b2_def b3_def le32_def read_le.simps uint_byte_of_int ..
  have "v mod 4294967296 = 256 * (256 * (256 * b3 + b2) + b1) + b0"
    unfolding e1 e2 e3 ..
  then show ?thesis unfolding r by simp
qed

lemma length_wav_header: "length (wav_header a b c d e f) = 44"
  by (simp add: wav_header_def le16_def le32_def ascii_def)

lemma fields_wav_header:
  "field 0 4 (wav_header a b c d e f @ p) = ascii ''RIFF''"
  "field 4 4 (wav_header a b c d e f @ p) = le32 a"
  "field 8 4 (wav_header a b c d e f @ p) = ascii ''WAVE''"
  "field 12 4 (wav_header a b c d e f @ p) = ascii ''fmt ''"
  "field 16 4 (wav_header a b c d e f @ p) = le32 16"
  "field 20 2 (wav_header a b c d e f @ p) = le16 1"
  "field 22 2 (wav_header a b c d e f @ p) = le16 b"
  "field 24 4 (wav_header a b c d e f @ p) = le32 c"
  "field 28 4 (wav_header a b c d e f @ p) = le32 d"
  "field 32 2 (wav_header a b c d e f @ p) = le16 e"
  "field 34 2 (wav_header a b c d e f @ p) = le16 16"
  "field 36 4 (wav_header a b c d e f @ p) = ascii ''data''"
  "field 40 4 (wav_header a b c d e f @ p) = le32 f"
  by (simp_all add: field_def wav_header_def le16_def le32_def ascii_def)

lemma to_uint_mod: "to_uint w x mod 2 ^ w = to_uint w x"
  by (cases x) simp_all

lemma alloc:
  assumes "length p + 44 < 2 ^ 53"
  shows "new_ArrayBuffer (js_plus (IntNum 44) (IntNum (int (length p)))) =
           Inr (replicate 44 0 @ replicate (length p) 0)"
proof -
  have b: "\<bar>44 + int (length p)\<bar> < 2 ^ 53" using assms by simp
  have "nat (44 + int (length p)) = 44 + length p" by simp
  then show ?thesis
    using b by (simp add: new_ArrayBuffer_def to_double_exact replicate_add)
qed

lemma createWavBlob_bytes:
  assumes "length p + 44 < 2 ^ 53"
  shows "createWavBlob p r c =
     Inr \<lparr>blob_parts = header_of (length p) r c @ p, blob_type = ''audio/wav''\<rparr>"
  unfolding createWavBlob_def Let_def alloc [OF assms]
  by (simp add: setUint8_def setUint32_def setUint16_def
      replicate_44 list_update_append1 list_update_Cons_numeral set_bytes_def
      header_of_def wav_header_def le16_def le32_def ascii_def
      del: js_plus.simps js_times.simps to_uint.simps)
     simp

lemma read_field16: "read_le (le16 (to_uint 16 x)) = to_uint 16 x"
  using to_uint_mod [of 16 x] by (simp add: read_le_le16)

lemma read_field32: "read_le (le32 (to_uint 32 x)) = to_uint 32 x"
  using to_uint_mod [of 32 x] by (simp add: read_le_le32)

lemma fields_header_of:
  "field 0 4 (header_of n r c @ p) = ascii ''RIFF''"
  "read_le (field 4 4 (header_of n r c @ p)) = to_uint 32 (js_plus (IntNum 36) (IntNum (int n)))"
  "field 8 4 (header_of n r c @ p) = ascii ''WAVE''"
  "field 12 4 (header_of n r c @ p) = ascii ''fmt ''"
  "read_le (field 16 4 (header_of n r c @ p)) = 16"
  "read_le (field 20 2 (header_of n r c @ p)) = 1"
  "read_le (field 22 2 (header_of n r c @ p)) = to_uint 16 c"
  "read_le (field 24 4 (header_of n r c @ p)) = to_uint 32 r"
  "read_le (field 28 4 (header_of n r c @ p)) = to_uint 32 (js_times (js_times r c) (IntNum 2))"
  "read_le (field 32 2 (header_of n r c @ p)) = to_uint 16 (js_times c (IntNum 2))"
  "read_le (field 34 2 (header_of n r c @ p)) = 16"
  "field 36 4 (header_of n r c @ p) = ascii ''data''"
  "read_le (field 40 4 (header_of n r c @ p)) = to_uint 32 (IntNum (int n))"
  "length (header_of n r c) = 44"
  "drop 44 (header_of n r c @ p) = p"
  unfolding header_of_def fields_wav_header read_field16 read_field32 length_wav_header
  by (simp_all add: read_le_le16 read_le_le32 length_wav_header)


lemma byte_rate_exact:
  assumes "\<bar>r * c\<bar> < 2 ^ 52"
  shows "js_times (js_times (IntNum r) (IntNum c)) (IntNum 2) = IntNum (r * c * 2)"
proof -
  have a: "\<bar>r * c\<bar> < 2 ^ 53" using assms by simp
  have b: "\<bar>r * c * 2\<bar> < 2 ^ 53" using assms by simp
  show ?thesis by (simp add: to_double_exact [OF a] to_double_exact [OF b])
qed

lemma block_align_exact:
  assumes "\<bar>c\<bar> < 2 ^ 52"
  shows "js_times (IntNum c) (IntNum 2) = IntNum (c * 2)"
proof -
  have b: "\<bar>c * 2\<bar> < 2 ^ 53" using assms by simp
  show ?thesis by (simp add: to_double_exact [OF b])
qed

lemma chunk_size_exact:
  assumes "length p + 44 < 2 ^ 53"
  shows "js_plus (IntNum 36) (IntNum (int (length p))) = IntNum (36 + int (length p))"
proof -
  have b: "\<bar>36 + int (length p)\<bar> < 2 ^ 53" using assms by simp
  show ?thesis by (simp add: to_double_exact [OF b])
qed

text \<open>
  Claim C1, amended.  For a buffer \<open>p\<close> of fewer than \<open>2 ^ 53 - 44\<close> bytes and integer
  numbers \<open>r\<close> and \<open>c\<close>, \<open>createWavBlob\<close> does not throw; the blob has the type
  \<open>audio/wav\<close> and \<open>44 + length p\<close> bytes: the 44 bytes of the header in the layout of
  the design, followed by the bytes of \<open>p\<close>.  Each numeric field holds its value modulo
  \<open>2 ^ 16\<close> or \<open>2 ^ 32\<close>, read as little-endian, where the byte rate and the block align
  are products of double-precision numbers: they are the exact products \<open>r * c * 2\<close> and
  \<open>c * 2\<close> when \<open>r * c\<close> and \<open>c\<close> are below \<open>2 ^ 52\<close> in magnitude.  So a value within
  the range of its field is stored exactly, and the sample rate and the channel count are
  recovered from the header when \<open>0 \<le> r < 2 ^ 32\<close> and \<open>0 \<le> c < 2 ^ 16\<close>.
\<close>

theorem createWavBlob_layout:
  assumes "length p + 44 < 2 ^ 53"
  shows "createWavBlob p (IntNum r) (IntNum c) =
     Inr \<lparr>blob_parts = header_of (length p) (IntNum r) (IntNum c) @ p,
          blob_type = ''audio/wav''\<rparr> \<and>
   length (header_of (length p) (IntNum r) (IntNum c) @ p) = 44 + length p \<and>
   field 0 4 (header_of (length p) (IntNum r) (IntNum c) @ p) = ascii ''RIFF'' \<and>
   read_le (field 4 4 (header_of (length p) (IntNum r) (IntNum c) @ p)) =
     (36 + int (length p)) mod 2 ^ 32 \<and>
   field 8 4 (header_of (length p) (IntNum r) (IntNum c) @ p) = ascii ''WAVE'' \<and>
   field 12 4 (header_of (length p) (IntNum r) (IntNum c) @ p) = ascii ''fmt '' \<and>
   read_le (field 16 4 (header_of (length p) (IntNum r) (IntNum c) @ p)) = 16 \<and>
   read_le (field 20 2 (header_of (length p) (IntNum r) (IntNum c) @ p)) = 1 \<and>
   read_le (field 22 2 (header_of (length p) (IntNum r) (IntNum c) @ p)) = c mod 2 ^ 16 \<and>
   read_le (field 24 4 (header_of (length p) (IntNum r) (IntNum c) @ p)) = r mod 2 ^ 32 \<and>
   read_le (field 28 4 (header_of (length p) (IntNum r) (IntNum c) @ p)) =
     to_uint 32 (js_times (js_times (IntNum r) (IntNum c)) (IntNum 2)) \<and>
   (\<bar>r * c\<bar> < 2 ^ 52 \<longrightarrow>
      read_le (field 28 4 (header_of (length p) (IntNum r) (IntNum c) @ p)) =
        (r * c * 2) mod 2 ^ 32) \<and>
   read_le (field 32 2 (header_of (length p) (IntNum r) (IntNum c) @ p)) =
     to_uint 16 (js_times (IntNum c) (IntNum 2)) \<and>
   (\<bar>c\<bar> < 2 ^ 52 \<longrightarrow>
      read_le (field 32 2 (header_of (length p) (IntNum r) (IntNum c) @ p)) =
        (c * 2) mod 2 ^ 16) \<and>
   read_le (field 34 2 (header_of (length p) (IntNum r) (IntNum c) @ p)) = 16 \<and>
   field 36 4 (header_of (length p) (IntNum r) (IntNum c) @ p) = ascii ''data'' \<and>
   read_le (field 40 4 (header_of (length p) (IntNum r) (IntNum c) @ p)) =
     int (length p) mod 2 ^ 32 \<and>
   drop 44 (header_of (length p) (IntNum r) (IntNum c) @ p) = p \<and>
   (0 \<le> c \<and> c < 2 ^ 16 \<longrightarrow>
      read_le (field 22 2 (header_of (length p) (IntNum r) (IntNum c) @ p)) = c) \<and>
   (0 \<le> r \<and> r < 2 ^ 32 \<longrightarrow>
      read_le (field 24 4 (header_of (length p) (IntNum r) (IntNum c) @ p)) = r) \<and>
   (0 \<le> r * c \<and> r * c * 2 < 2 ^ 32 \<longrightarrow>
      read_le (field 28 4 (header_of (length p) (IntNum r) (IntNum c) @ p)) = r * c * 2) \<and>
   (0 \<le> c \<and> c * 2 < 2 ^ 16 \<longrightarrow>
      read_le (field 32 2 (header_of (length p) (IntNum r) (IntNum c) @ p)) = c * 2) \<and>
   (36 + int (length p) < 2 ^ 32 \<longrightarrow>
      read_le (field 4 4 (header_of (length p) (IntNum r) (IntNum c) @ p)) = 36 + int (length p) \<and>
      read_le (field 40 4 (header_of (length p) (IntNum r) (IntNum c) @ p)) = int (length p))"
proof -
  have rate: "\<bar>r * c\<bar> < 2 ^ 52 \<longrightarrow>
      to_uint 32 (js_times (js_times (IntNum r) (IntNum c)) (IntNum 2)) = (r * c * 2) mod 2 ^ 32"
    by (simp add: byte_rate_exact del: js_times.simps)
  have rate2: "0 \<le> r * c \<and> r * c * 2 < 2 ^ 32 \<longrightarrow>
      to_uint 32 (js_times (js_times (IntNum r) (IntNum c)) (IntNum 2)) = r * c * 2"
  proof
    assume a: "0 \<le> r * c \<and> r * c * 2 < 2 ^ 32"
    define x where "x = r * c"
    from a have "0 \<le> x" "x * 2 < 4294967296" unfolding x_def by simp_all
    then have "\<bar>x\<bar> < 4503599627370496" by linarith
    then have "\<bar>r * c\<bar> < 2 ^ 52" unfolding x_def by simp
    then show "to_uint 32 (js_times (js_times (IntNum r) (IntNum c)) (IntNum 2)) = r * c * 2"
      using a by (simp add: byte_rate_exact del: js_times.simps)
  qed
  have align: "\<bar>c\<bar> < 2 ^ 52 \<longrightarrow>
      to_uint 16 (js_times (IntNum c) (IntNum 2)) = (c * 2) mod 2 ^ 16"
    by (simp add: block_align_exact del: js_times.simps)
  have align2: "0 \<le> c \<and> c * 2 < 2 ^ 16 \<longrightarrow>
      to_uint 16 (js_times (IntNum c) (IntNum 2)) = c * 2"
  proof
    assume a: "0 \<le> c \<and> c * 2 < 2 ^ 16"
    then have "0 \<le> c" "c * 2 < 65536" by simp_all
    then have "\<bar>c\<bar> < 4503599627370496" by linarith
    then have "\<bar>c\<bar> < 2 ^ 52" by simp
    then show "to_uint 16 (js_times (IntNum c) (IntNum 2)) = c * 2"
      using a by (simp add: block_align_exact del: js_times.simps)
  qed
  show ?thesis
    unfolding createWavBlob_bytes [OF assms] fields_header_of chunk_size_exact [OF assms]
      length_append
    using rate rate2 align align2
    by (simp del: js_times.simps)
qed


text \<open>
  Beyond \<open>2 ^ 53\<close> the byte rate is the rounded product: for the sample rate
  \<open>2 ^ 53 - 1\<close> and 3 channels the field holds 4294967288, while the exact product
  modulo \<open>2 ^ 32\<close> is 4294967290.
\<close>

lemma byte_rate_rounded:
  "to_uint 32 (js_times (js_times (IntNum 9007199254740991) (IntNum 3)) (IntNum 2)) = 4294967288"
proof -
  have small: "(2::int) ^ 60 < double_limit"
    unfolding double_limit_def by (intro power_strict_increasing) simp_all
  have b1: "bit_length 27021597764222973 = Suc 54"
    by (rule bit_length_eq) simp_all
  have r1: "round_double 27021597764222973 = 27021597764222972"
    by (simp add: round_double_def Let_def b1)
  have t1: "to_double 27021597764222973 = IntNum 27021597764222972"
    using small by (simp add: to_double_def Let_def r1)
  have b2: "bit_length 54043195528445944 = Suc 55"
    by (rule bit_length_eq) simp_all
  have r2: "round_double 54043195528445944 = 54043195528445944"
    by (simp add: round_double_def Let_def b2)
  have t2: "to_double 54043195528445944 = IntNum 54043195528445944"
    using small by (simp add: to_double_def Let_def r2)
  show ?thesis by (simp add: t1 t2)
qed

text \<open>
  Claim C1, as stated, fails where a value does not fit its field: the setters of the
  view store a value modulo the width of the field.  With 65536 channels the channel
  field of the header reads 0, so the channel count is not recovered.
\<close>

theorem wav_channels_counterexample:
  "createWavBlob [] (IntNum 24000) (IntNum 65536) =
     Inr \<lparr>blob_parts = header_of 0 (IntNum 24000) (IntNum 65536) @ [],
          blob_type = ''audio/wav''\<rparr> \<and>
   read_le (field 22 2 (header_of 0 (IntNum 24000) (IntNum 65536) @ [])) = 0 \<and>
   (0::int) \<noteq> 65536"
proof -
  have l: "length ([] :: byte list) + 44 < 2 ^ 53" by simp
  show ?thesis
    using createWavBlob_bytes [OF l, of "IntNum 24000" "IntNum 65536"]
    by (simp only: fields_header_of) simp
qed

theorem createWavBlob_layout_witness:
  "length [1, 2, 3, 4 :: byte] + 44 < 2 ^ 53 \<and>
   createWavBlob [1, 2, 3, 4] (IntNum 24000) (IntNum 1) =
     Inr \<lparr>blob_parts = header_of 4 (IntNum 24000) (IntNum 1) @ [1, 2, 3, 4],
          blob_type = ''audio/wav''\<rparr> \<and>
   (0::int) \<le> 1 \<and> (1::int) < 2 ^ 16 \<and> (0::int) \<le> 24000 \<and> (24000::int) < 2 ^ 32 \<and>
   read_le (field 22 2 (header_of 4 (IntNum 24000) (IntNum 1) @ [1, 2, 3, 4])) = 1 \<and>
   read_le (field 24 4 (header_of 4 (IntNum 24000) (IntNum 1) @ [1, 2, 3, 4])) = 24000 \<and>
   read_le (field 28 4 (header_of 4 (IntNum 24000) (IntNum 1) @ [1, 2, 3, 4])) = 48000 \<and>
   read_le (field 32 2 (header_of 4 (IntNum 24000) (IntNum 1) @ [1, 2, 3, 4])) = 2 \<and>
   read_le (field 4 4 (header_of 4 (IntNum 24000) (IntNum 1) @ [1, 2, 3, 4])) = 40 \<and>
   read_le (field 40 4 (header_of 4 (IntNum 24000) (IntNum 1) @ [1, 2, 3, 4])) = 4"
proof -
  have l: "length [1, 2, 3, 4 :: byte] = 4" by simp
  have b: "length [1, 2, 3, 4 :: byte] + 44 < 2 ^ 53" by simp
  show ?thesis
    using createWavBlob_layout [OF b, of 24000 1] unfolding l by simp
qed


section \<open>Properties of the PCM decoder\<close>

lemma int16_of_range: "- 32768 \<le> int16_of lo hi \<and> int16_of lo hi < 32768"
proof -
  define u where "u = uint lo + 256 * uint hi"
  have "uint lo < 256" "uint hi < 256"
    using uint_lt2p [of lo] uint_lt2p [of hi] by simp_all
  then have "u < 65536" unfolding u_def by linarith
  moreover have "0 \<le> u" unfolding u_def by simp
  moreover have "int16_of lo hi = (if u \<ge> 32768 then u - 65536 else u)"
    by (simp add: int16_of_def u_def)
  ultimately show ?thesis by simp
qed

lemma sample_at_range:
  assumes "k < length d" and "\<forall>x \<in> set d. - 32768 \<le> x \<and> x < 32768"
  shows "sample_at d k = Float (real_of_int (d ! k) / 32768) \<and>
         - 1 \<le> real_of_int (d ! k) / 32768 \<and> real_of_int (d ! k) / 32768 < 1"
proof -
  have "- 32768 \<le> d ! k" "d ! k < 32768" using assms nth_mem by blast+
  then have "- 32768 \<le> real_of_int (d ! k)" "real_of_int (d ! k) < 32768" by linarith+
  then show ?thesis using assms(1) by (simp add: sample_at_def)
qed

text \<open>The inner loop fills the positions from i on.\<close>

lemma frame_loop_fill:
  "length cd = F \<Longrightarrow> real F \<le> fc \<Longrightarrow> fc < real F + 1 \<Longrightarrow> i \<le> F \<Longrightarrow>
   frame_loop d c fc ch i cd =
     take i cd @ map (\<lambda>j. sample_at d (j * c + ch)) [i..<F]"
proof (induction d c fc ch i cd rule: frame_loop.induct)
  case (1 d c fc ch i cd)
  show ?case
  proof (cases "real i < fc")
    case False
    with 1 have iF: "i = F" by linarith
    have "frame_loop d c fc ch i cd = cd"
      using False by (subst frame_loop.simps) simp
    with iF 1 show ?thesis by simp
  next
    case True
    show ?thesis
    proof (cases "i < F")
      case t: True
      let ?cd = "store cd i (sample_at d (i * c + ch))"
      have cd: "?cd = cd[i := sample_at d (i * c + ch)]" using t 1 by (simp add: store_def)
      have "frame_loop d c fc ch (i + 1) ?cd =
              take (i + 1) ?cd @ map (\<lambda>j. sample_at d (j * c + ch)) [i + 1..<F]"
        using True t "1.prems" by (intro "1.IH") (simp_all add: cd)
      moreover have "take (i + 1) ?cd = take i cd @ [sample_at d (i * c + ch)]"
        using t 1 by (simp add: cd take_Suc_conv_app_nth)
      moreover have "[i..<F] = i # [i + 1..<F]" using t by (simp add: upt_conv_Cons)
      moreover have "frame_loop d c fc ch i cd = frame_loop d c fc ch (i + 1) ?cd"
        using True by (subst frame_loop.simps) simp
      ultimately show ?thesis by simp
    next
      case f: False
      with 1 have iF: "i = F" by simp
      let ?cd = "store cd i (sample_at d (i * c + ch))"
      have cd: "?cd = cd" using iF 1 by (simp add: store_def)
      have "\<not> real (i + 1) < fc" using iF 1 by simp
      then have "frame_loop d c fc ch (i + 1) cd = cd"
        by (subst frame_loop.simps) simp
      moreover have "frame_loop d c fc ch i cd = frame_loop d c fc ch (i + 1) cd"
        using True by (subst frame_loop.simps) (simp add: cd)
      ultimately have "frame_loop d c fc ch i cd = cd" by simp
      then show ?thesis
        using iF 1 by simp
    qed
  qed
qed


lemma channel_loop_fill:
  "length b = c \<Longrightarrow> \<forall>cd \<in> set b. length cd = F \<Longrightarrow> real F \<le> fc \<Longrightarrow> fc < real F + 1 \<Longrightarrow>
   ch \<le> c \<Longrightarrow>
   channel_loop d c fc ch b =
     Inr (take ch b @ map (\<lambda>k. map (\<lambda>j. sample_at d (j * c + k)) [0..<F]) [ch..<c])"
proof (induction d c fc ch b rule: channel_loop.induct)
  case (1 d c fc ch b)
  show ?case
  proof (cases "ch < c")
    case False
    with 1 have "ch = c" by simp
    moreover have "channel_loop d c fc ch b = Inr b"
      using False by (subst channel_loop.simps) simp
    ultimately show ?thesis using 1 by simp
  next
    case True
    let ?row = "frame_loop d c fc ch 0 (b ! ch)"
    let ?b = "b[ch := ?row]"
    have len: "length (b ! ch) = F" using True 1 by simp
    have row: "?row = map (\<lambda>j. sample_at d (j * c + ch)) [0..<F]"
      using frame_loop_fill [OF len "1.prems"(3,4), of 0 d c ch] by simp
    have all: "\<forall>cd \<in> set ?b. length cd = F"
    proof
      fix cd assume "cd \<in> set ?b"
      then have "cd \<in> insert ?row (set b)" using set_update_subset_insert by fastforce
      then show "length cd = F" using "1.prems"(2) row by auto
    qed
    have "channel_loop d c fc (ch + 1) ?b =
        Inr (take (ch + 1) ?b @ map (\<lambda>k. map (\<lambda>j. sample_at d (j * c + k)) [0..<F]) [ch + 1..<c])"
      using True "1.prems" all by (intro "1.IH") simp_all
    moreover have "take (ch + 1) ?b = take ch b @ [?row]"
      using True "1.prems"(1) by (simp add: take_Suc_conv_app_nth)
    moreover have "[ch..<c] = ch # [ch + 1..<c]" using True by (simp add: upt_conv_Cons)
    moreover have "channel_loop d c fc ch b = channel_loop d c fc (ch + 1) ?b"
      using True "1.prems"(1) by (subst channel_loop.simps) simp
    ultimately show ?thesis by (simp add: row)
  qed
qed

lemma frames_bounds:
  assumes "0 < (c::nat)"
  shows "real (s div c) \<le> real s / real c" and "real s / real c < real (s div c) + 1"
    and "nat \<lfloor>real s / real c\<rfloor> = s div c"
proof -
  have "s div c * c \<le> s" by simp
  then have "real (s div c) * real c \<le> real s"
    by (metis of_nat_mult of_nat_le_iff)
  then show "real (s div c) \<le> real s / real c"
    using assms by (simp add: pos_le_divide_eq)
  have "s < c + c * (s div c)" using assms by (rule dividend_less_times_div)
  then have "real s < real c * (real (s div c) + 1)"
    by (metis of_nat_less_iff of_nat_add of_nat_mult distrib_left mult.right_neutral add.commute)
  then show "real s / real c < real (s div c) + 1"
    using assms by (simp add: pos_divide_less_eq mult.commute)
  show "nat \<lfloor>real s / real c\<rfloor> = s div c"
    by (simp add: floor_divide_of_nat_eq)
qed


lemma new_Int16Array_samples:
  "even (byteOffset data) \<Longrightarrow> byteOffset data + length_view data \<le> length (buffer_of data) \<Longrightarrow>
   new_Int16Array data = Inr (samples_of data)"
  by (auto simp: new_Int16Array_def samples_of_def Let_def)

lemma samples_of_range: "\<forall>x \<in> set (samples_of data). - 32768 \<le> x \<and> x < 32768"
  using int16_of_range by (auto simp: samples_of_def)

lemma pcm_example_samples: "samples_of pcm_example = [- 32768, 32767, 1]"
  by (simp add: samples_of_def pcm_example_def int16_of_def Let_def upt_conv_Cons)


text \<open>
  Claim C9, as stated, fails for a byte buffer that is a window at an odd offset of its
  underlying buffer: the constructor of the 16-bit view throws, so \<open>decodeAudioData\<close>
  fails for it.
\<close>

theorem decodeAudioData_odd_offset_counterexample:
  "byteOffset pcm_odd_example + length_view pcm_odd_example \<le> length (buffer_of pcm_odd_example) \<and>
   decodeAudioData pcm_odd_example silent_buffer 24000 1 = Inl RangeError"
  by (simp add: decodeAudioData_def new_Int16Array_def pcm_odd_example_def andThen_def)

text \<open>
  When the context throws in \<open>createBuffer\<close>, as a context of a browser does for a
  buffer of no frames, \<open>decodeAudioData\<close> throws the same value.
\<close>

lemma decodeAudioData_createBuffer_throws:
  assumes "even (byteOffset data)"
    and "byteOffset data + length_view data \<le> length (buffer_of data)"
    and "createBuffer numChannels
           (nat \<lfloor>real (length (samples_of data)) / real numChannels\<rfloor>) sampleRate = Inl e"
  shows "decodeAudioData data createBuffer sampleRate numChannels = Inl e"
  using assms(3)
  by (simp add: decodeAudioData_def new_Int16Array_samples [OF assms(1,2)] Let_def andThen_def)

text \<open>
  Claim C9, amended.  Let the window start at an even offset of its buffer and lie
  within it, let there be at least one channel, and let the context return a buffer with
  that many channels of \<open>s div c\<close> frames each, where \<open>s\<close> is the number of whole 16-bit
  samples in the window (half its length, rounded down) and \<open>c\<close> the channel count.  Then
  \<open>decodeAudioData\<close> does not throw; frame \<open>i\<close> of channel \<open>channel\<close> is sample
  \<open>i * c + channel\<close> divided by 32768, the samples being the signed 16-bit values of the
  bytes in the order of a little-endian platform, so every value lies in \<open>[-1, 1)\<close>; the
  bytes and samples after the last whole frame are not used.
\<close>

theorem decodeAudioData_deinterleaves:
  assumes c: "1 \<le> numChannels"
    and ev: "even (byteOffset data)"
    and wf: "byteOffset data + length_view data \<le> length (buffer_of data)"
    and cb: "createBuffer numChannels (length (samples_of data) div numChannels) sampleRate = Inr b"
    and lb: "length b = numChannels"
    and lc: "\<forall>channelData \<in> set b. length channelData = length (samples_of data) div numChannels"
  shows "decodeAudioData data createBuffer sampleRate numChannels =
           Inr (map (\<lambda>channel.
                  map (\<lambda>i. Float (real_of_int (samples_of data ! (i * numChannels + channel)) / 32768))
                      [0..<length (samples_of data) div numChannels])
                  [0..<numChannels]) \<and>
         length (samples_of data) = length_view data div 2 \<and>
         (\<forall>k < length (samples_of data).
            samples_of data ! k =
              int16_of (buffer_of data ! (byteOffset data + 2 * k))
                       (buffer_of data ! (byteOffset data + 2 * k + 1)) \<and>
            - 1 \<le> real_of_int (samples_of data ! k) / 32768 \<and>
            real_of_int (samples_of data ! k) / 32768 < 1)"
proof -
  let ?d = "samples_of data"
  let ?F = "length ?d div numChannels"
  let ?fc = "real (length ?d) / real numChannels"
  have pos: "0 < numChannels" using c by simp
  have loop: "channel_loop ?d numChannels ?fc 0 b =
     Inr (map (\<lambda>k. map (\<lambda>j. sample_at ?d (j * numChannels + k)) [0..<?F]) [0..<numChannels])"
    using channel_loop_fill [OF lb lc frames_bounds(1,2) [OF pos], of 0 ?d] by simp
  have inside: "j * numChannels + k < length ?d" if "j < ?F" "k < numChannels" for j k
  proof -
    have "j * numChannels + k < (j + 1) * numChannels" using that by simp
    also have "\<dots> \<le> ?F * numChannels"
      using that(1) by (intro mult_le_mono1) simp
    also have "\<dots> \<le> length ?d" by simp
    finally show ?thesis .
  qed
  have rows: "map (\<lambda>k. map (\<lambda>j. sample_at ?d (j * numChannels + k)) [0..<?F]) [0..<numChannels] =
        map (\<lambda>channel.
                  map (\<lambda>i. Float (real_of_int (?d ! (i * numChannels + channel)) / 32768)) [0..<?F])
            [0..<numChannels]"
    using inside by (simp add: sample_at_def)
  have "decodeAudioData data createBuffer sampleRate numChannels =
          channel_loop ?d numChannels ?fc 0 b"
    using cb by (simp add: decodeAudioData_def new_Int16Array_samples [OF ev wf] Let_def
        frames_bounds(3) [OF pos])
  then have first: "decodeAudioData data createBuffer sampleRate numChannels =
           Inr (map (\<lambda>channel.
                  map (\<lambda>i. Float (real_of_int (?d ! (i * numChannels + channel)) / 32768)) [0..<?F])
                  [0..<numChannels])"
    using loop rows by simp
  have second: "length ?d = length_view data div 2" by (simp add: samples_of_def)
  have third: "\<forall>k < length ?d.
            ?d ! k = int16_of (buffer_of data ! (byteOffset data + 2 * k))
                       (buffer_of data ! (byteOffset data + 2 * k + 1)) \<and>
            - 1 \<le> real_of_int (?d ! k) / 32768 \<and> real_of_int (?d ! k) / 32768 < 1"
  proof (intro allI impI conjI)
    fix k assume k: "k < length ?d"
    then show "?d ! k = int16_of (buffer_of data ! (byteOffset data + 2 * k))
                       (buffer_of data ! (byteOffset data + 2 * k + 1))"
      by (simp add: samples_of_def)
    show "- 1 \<le> real_of_int (?d ! k) / 32768" "real_of_int (?d ! k) / 32768 < 1"
      using sample_at_range [OF k samples_of_range] by simp_all
  qed
  from first second third show ?thesis by blast
qed

theorem decodeAudioData_deinterleaves_witness:
  "(1::nat) \<le> 2 \<and> even (byteOffset pcm_example) \<and>
   byteOffset pcm_example + length_view pcm_example \<le> length (buffer_of pcm_example) \<and>
   silent_buffer 2 (length (samples_of pcm_example) div 2) 24000 = Inr [[Float 0], [Float 0]] \<and>
   decodeAudioData pcm_example silent_buffer 24000 2 =
     Inr [[Float (- 1)], [Float (32767 / 32768)]]"
proof -
  have c: "(1::nat) \<le> 2" by simp
  have ev: "even (byteOffset pcm_example)" by (simp add: pcm_example_def)
  have wf: "byteOffset pcm_example + length_view pcm_example \<le> length (buffer_of pcm_example)"
    by (simp add: pcm_example_def)
  have f: "length (samples_of pcm_example) div 2 = 1" by (simp add: pcm_example_samples)
  have r: "replicate 2 (replicate 1 (Float 0)) = [[Float 0], [Float 0]]"
    by (simp add: numeral_2_eq_2)
  have cb: "silent_buffer 2 (length (samples_of pcm_example) div 2) 24000 =
              Inr [[Float 0], [Float 0]]"
    unfolding f silent_buffer_def r ..
  have lb: "length [[Float 0], [Float 0]] = 2" by simp
  have lc: "\<forall>channelData \<in> set [[Float 0], [Float 0]].
              length channelData = length (samples_of pcm_example) div 2"
    by (simp add: pcm_example_samples)
  have u: "[0..<2] = [0, 1]" "[0..<1] = [0]" by (simp_all add: upt_conv_Cons)
  have "decodeAudioData pcm_example silent_buffer 24000 2 =
     Inr [[Float (- 1)], [Float (32767 / 32768)]]"
    using decodeAudioData_deinterleaves
            [of 2 pcm_example silent_buffer 24000 "[[Float 0], [Float 0]]", OF c ev wf cb lb lc]
    by (simp add: pcm_example_samples u)
  with c ev wf cb show ?thesis by blast
qed

section \<open>Properties of the base64 functions\<close>

lemma index_of_nth:
  "distinct xs \<Longrightarrow> n < length xs \<Longrightarrow> index_of xs (xs ! n) = Some n"
proof (induction xs arbitrary: n)
  case Nil
  then show ?case by simp
next
  case (Cons x xs)
  then show ?case by (cases n) auto
qed

lemma distinct_b64_alphabet: "distinct b64_alphabet"
  by (simp add: b64_alphabet_def)

lemma length_b64_alphabet: "length b64_alphabet = 64"
  by (simp add: b64_alphabet_def)

lemma b64_index_char: "n < 64 \<Longrightarrow> b64_index (b64_char n) = Some n"
  by (simp add: b64_index_def b64_char_def index_of_nth distinct_b64_alphabet length_b64_alphabet)

lemma b64_char_in: "n < 64 \<Longrightarrow> b64_char n \<in> set b64_alphabet"
  by (simp add: b64_char_def length_b64_alphabet)

lemma alphabet_plain:
  "c \<in> set b64_alphabet \<Longrightarrow> c \<noteq> CHR ''='' \<and> \<not> ascii_whitespace c"
  by (auto simp: b64_alphabet_def ascii_whitespace_def)

lemma sextets:
  assumes "a < 256" "b < 256" "c < 256"
  shows "sextet1 a < 64" "sextet2 a b < 64" "sextet3 b c < 64" "sextet4 c < 64"
proof -
  define a1 where "a1 = a mod 4"
  define b1 where "b1 = b mod 16"
  define b2 where "b2 = b div 16"
  define c2 where "c2 = c div 64"
  have "a1 < 4" "b1 < 16" by (simp_all add: a1_def b1_def)
  moreover have "b2 < 16" "c2 < 4"
    using assms by (simp_all add: b2_def c2_def div_less_iff_less_mult)
  ultimately have "a1 * 16 + b2 < 64" "b1 * 4 + c2 < 64"
    by linarith+
  then show "sextet2 a b < 64" "sextet3 b c < 64"
    by (simp_all only: sextet2_def sextet3_def a1_def b1_def b2_def c2_def)
  show "sextet1 a < 64" using assms by (simp add: sextet1_def div_less_iff_less_mult)
  show "sextet4 c < 64" by (simp add: sextet4_def)
qed

lemma regroup:
  assumes "a < 256" "b < 256" "c < 256"
  shows "octet1 (sextet1 a) (sextet2 a b) = a"
    "octet2 (sextet2 a b) (sextet3 b c) = b"
    "octet3 (sextet3 b c) (sextet4 c) = c"
proof -
  have b2: "b div 16 < 16" and c2: "c div 64 < 4"
    using assms by (simp_all add: div_less_iff_less_mult)
  have hi: "((a mod 4) * 16 + b div 16) div 16 = a mod 4"
    using b2 by simp
  have lo: "((a mod 4) * 16 + b div 16) mod 16 = b div 16"
    using b2 by simp
  have hi2: "((b mod 16) * 4 + c div 64) div 4 = b mod 16"
    using c2 by simp
  have lo2: "((b mod 16) * 4 + c div 64) mod 4 = c div 64"
    using c2 by simp
  show "octet1 (sextet1 a) (sextet2 a b) = a"
    unfolding octet1_def sextet1_def sextet2_def hi by simp
  show "octet2 (sextet2 a b) (sextet3 b c) = b"
    unfolding octet2_def sextet2_def sextet3_def lo hi2 by simp
  show "octet3 (sextet3 b c) (sextet4 c) = c"
    unfolding octet3_def sextet3_def sextet4_def lo2 by simp
qed

lemma of_char_less: "(of_char c :: nat) < 256"
proof -
  have "(of_char c :: nat) mod 256 = of_char c" by simp
  then show ?thesis by (metis mod_less_divisor zero_less_numeral)
qed

lemma index_of_in: "c \<in> set xs \<Longrightarrow> index_of xs c \<noteq> None"
  by (induction xs) auto

lemma b64_body_chars: "c \<in> set (b64_body s) \<Longrightarrow> c \<in> set b64_alphabet"
proof (induction s arbitrary: c rule: b64_body.induct)
  case (1 a b c' rest)
  then show ?case
    using sextets [OF of_char_less [of a] of_char_less [of b] of_char_less [of c']]
    by (auto intro: b64_char_in)
next
  case (2 a b)
  then show ?case
    using sextets [OF of_char_less [of a] of_char_less [of b], of 0]
    by (auto intro: b64_char_in)
next
  case (3 a)
  then show ?case
    using sextets [OF of_char_less [of a], of 0 0]
    by (auto intro: b64_char_in)
next
  case 4
  then show ?case by simp
qed

lemma length_b64_body:
  "length (b64_body s) =
     4 * (length s div 3) + (if length s mod 3 = 0 then 0 else length s mod 3 + 1)"
  by (induction s rule: b64_body.induct) simp_all

lemma b64_groups_body: "b64_groups (map (\<lambda>c. the (b64_index c)) (b64_body s)) = s"
proof (induction s rule: b64_body.induct)
  case (1 a b c rest)
  note s = sextets [OF of_char_less [of a] of_char_less [of b] of_char_less [of c]]
  note r = regroup [OF of_char_less [of a] of_char_less [of b] of_char_less [of c]]
  show ?case using 1 by (simp add: b64_index_char s r)
next
  case (2 a b)
  note s = sextets [OF of_char_less [of a] of_char_less [of b], of 0]
  note r = regroup [OF of_char_less [of a] of_char_less [of b], of 0]
  show ?case by (simp add: b64_index_char s r)
next
  case (3 a)
  note s = sextets [OF of_char_less [of a], of 0 0]
  note r = regroup [OF of_char_less [of a], of 0 0]
  show ?case by (simp add: b64_index_char s r)
next
  case 4
  show ?case by simp
qed


lemma b64_body_last: "b64_body s \<noteq> [] \<Longrightarrow> last (b64_body s) \<noteq> CHR ''=''"
  using b64_body_chars [of "last (b64_body s)" s] alphabet_plain by auto

lemma strip_padding_plain: "d = [] \<or> last d \<noteq> CHR ''='' \<Longrightarrow> strip_padding d = d"
  by (cases d rule: rev_cases) (auto simp: strip_padding_def split: list.splits)

lemma strip_padding_one:
  "d \<noteq> [] \<Longrightarrow> last d \<noteq> CHR ''='' \<Longrightarrow> strip_padding (d @ [CHR ''='']) = d"
  by (cases d rule: rev_cases) (auto simp: strip_padding_def split: list.splits)

lemma strip_padding_two: "strip_padding (d @ [CHR ''='', CHR ''='']) = d"
  by (simp add: strip_padding_def)

lemma mod3_cases:
  fixes n :: nat
  obtains "n mod 3 = 0" | "n mod 3 = 1" | "n mod 3 = 2"
proof -
  have "n mod 3 < 3" by simp
  then have "n mod 3 = 0 \<or> n mod 3 = 1 \<or> n mod 3 = 2" by linarith
  then show ?thesis using that by auto
qed

lemma b64_pad_cases:
  "length s mod 3 = 0 \<Longrightarrow> b64_pad s = []"
  "length s mod 3 = 1 \<Longrightarrow> b64_pad s = [CHR ''='', CHR ''='']"
  "length s mod 3 = 2 \<Longrightarrow> b64_pad s = [CHR ''='']"
  by (simp_all add: b64_pad_def numeral_2_eq_2)

lemma length_body_mod4:
  "length (b64_body s) mod 4 = (if length s mod 3 = 0 then 0 else length s mod 3 + 1)"
proof -
  define t where "t = (if length s mod 3 = 0 then 0 else length s mod 3 + 1)"
  have "length s mod 3 < 3" by simp
  then have "t < 4" unfolding t_def by (simp split: if_splits)
  then have "(4 * (length s div 3) + t) mod 4 = t" by simp
  then show ?thesis unfolding length_b64_body t_def .
qed

lemma length_body_not1: "length (b64_body s) mod 4 \<noteq> 1"
  unfolding length_body_mod4 by simp

lemma length_encoded: "length (b64_body s @ b64_pad s) mod 4 = 0"
proof -
  have "length (b64_body s @ b64_pad s) mod 4 =
          (length (b64_body s) mod 4 + length (b64_pad s)) mod 4"
    by (simp add: mod_add_left_eq)
  also have "\<dots> = 0"
    unfolding length_body_mod4
    by (cases "length s" rule: mod3_cases) (simp_all add: b64_pad_cases)
  finally show ?thesis .
qed

lemma strip_encoded: "strip_padding (b64_body s @ b64_pad s) = b64_body s"
proof (cases "length s" rule: mod3_cases)
  case 1
  have "strip_padding (b64_body s) = b64_body s"
    using b64_body_last [of s] by (intro strip_padding_plain) blast
  with 1 show ?thesis by (simp add: b64_pad_cases)
next
  case 2
  then show ?thesis by (simp add: b64_pad_cases strip_padding_two)
next
  case 3
  then have "length (b64_body s) \<noteq> 0" by (simp add: length_b64_body)
  then have "b64_body s \<noteq> []" by simp
  with 3 show ?thesis
    using b64_body_last [of s] by (simp add: b64_pad_cases strip_padding_one)
qed

lemma no_whitespace_encoded:
  "filter (\<lambda>c. \<not> ascii_whitespace c) (b64_body s @ b64_pad s) = b64_body s @ b64_pad s"
proof -
  have "\<not> ascii_whitespace c" if "c \<in> set (b64_body s @ b64_pad s)" for c
  proof (cases "c \<in> set (b64_body s)")
    case True
    then show ?thesis using b64_body_chars alphabet_plain by blast
  next
    case False
    with that have "c = CHR ''=''" by (auto simp: b64_pad_def)
    then show ?thesis by (simp add: ascii_whitespace_def)
  qed
  then show ?thesis by (simp add: filter_id_conv del: filter_append)
qed

lemma atob_btoa: "andThen (btoa s) atob = Inr s"
proof -
  have valid: "\<forall>c \<in> set (b64_body s). b64_index c \<noteq> None"
  proof
    fix c assume "c \<in> set (b64_body s)"
    then have "c \<in> set b64_alphabet" by (rule b64_body_chars)
    then show "b64_index c \<noteq> None" unfolding b64_index_def by (rule index_of_in)
  qed
  then have ex: "(\<exists>c \<in> set (b64_body s). b64_index c = None) = False" by blast
  have n1: "(length (b64_body s) mod 4 = 1) = False" using length_body_not1 [of s] by simp
  have l: "(length (b64_body s @ b64_pad s) mod 4 = 0) = True" using length_encoded [of s] by simp
  have "atob (b64_body s @ b64_pad s) = Inr s"
    unfolding atob_def Let_def no_whitespace_encoded l if_True strip_encoded n1 ex if_False
      b64_groups_body ..
  then show ?thesis by (simp add: btoa_def)
qed

lemma bytes_of_chars:
  "map (\<lambda>c. of_nat (of_char c)) (map (\<lambda>b. char_of (unat b)) (bytes :: byte list)) = bytes"
proof -
  have "unat b mod 256 = unat b" for b :: byte
    using unsigned_less [of b, where ?'a = nat] by simp
  then show ?thesis by (simp add: o_def map_idI)
qed

lemma encode_Man: "encode [77, 97, 110] = Inr ''TWFu''"
  by (simp add: encode_def btoa_def b64_pad_def sextet1_def sextet2_def sextet3_def sextet4_def
      b64_char_def b64_alphabet_def)

lemma b64_pad_single: "b64_pad [c] = [CHR ''='', CHR ''='']"
  by (rule b64_pad_cases) simp

lemma encode_M: "encode [77] = Inr ''TQ==''"
  by (simp add: encode_def btoa_def b64_pad_single sextet1_def sextet2_def sextet3_def
      sextet4_def b64_char_def b64_alphabet_def)

text \<open>
  Claim C2.  Encoding a sequence of bytes and decoding the result does not throw and
  gives back the same sequence of bytes, of the same length.
\<close>

theorem decode_encode: "andThen (encode b) decode = Inr b"
proof -
  have "andThen (encode b) decode =
          andThen (andThen (btoa (map (\<lambda>b. char_of (unat b)) b)) atob)
            (\<lambda>binaryString. Inr (map (\<lambda>c. of_nat (of_char c)) binaryString))"
    by (simp add: encode_def decode_def btoa_def)
  then show ?thesis by (simp only: atob_btoa andThen_Inr bytes_of_chars)
qed

theorem decode_encode_witness:
  "encode [77, 97, 110] = Inr ''TWFu'' \<and> decode ''TWFu'' = Inr [77, 97, 110] \<and>
   encode [77] = Inr ''TQ=='' \<and> decode ''TQ=='' = Inr [77]"
  using decode_encode [of "[77, 97, 110]"] decode_encode [of "[77]"]
  by (simp add: encode_Man encode_M)


section \<open>Properties of the error classifier\<close>

lemma lower_message_ok:
  "string_or_falsy m \<Longrightarrow> \<exists>s. lower_message m = Inr s"
  by (cases m) (auto simp: string_or_falsy_def lower_message_def js_or_def)

lemma find_RetryInfo_ok:
  "list_all well_typed_detail ds \<Longrightarrow>
   \<exists>r. find_RetryInfo ds = Inr r \<and> (r = Undefined \<or> well_typed_detail r)"
  by (induction ds) (auto simp: get_def well_typed_detail_def)

lemma some_API_KEY_INVALID_ok:
  "list_all well_typed_detail ds \<Longrightarrow> \<exists>r. some_API_KEY_INVALID ds = Inr r"
  by (induction ds) (auto simp: get_def well_typed_detail_def)

lemma details_ok:
  assumes "well_typed_api_error a"
  shows "\<exists>r. details_find (jsprop a ''details'') = Inr r \<and> (r = Undefined \<or> well_typed_detail r)"
    and "\<exists>r. details_some (jsprop a ''details'') = Inr r"
  using assms find_RetryInfo_ok some_API_KEY_INVALID_ok
  by (auto simp: well_typed_api_error_def details_find_def details_some_def
           split: jsval.splits)

lemma retry_branch_ok:
  assumes "r = Undefined \<or> well_typed_detail r"
  shows "\<exists>p. (if truthy (opt_jsprop r ''retryDelay'')
             then (case jsprop r ''retryDelay'' of
                     Str d \<Rightarrow> Inr (f d)
                   | _ \<Rightarrow> Inl e)
             else Inr q) = Inr (p :: ParsedError)"
  using assms
  by (cases "jsprop r ''retryDelay''")
     (auto simp: opt_jsprop_def well_typed_detail_def string_or_falsy_def)

lemma shown_ok:
  assumes "string_or_falsy m" "string_or_falsy s"
  shows "\<exists>t. js_to_string (js_or m (js_or s (Str ''Unknown error''))) = Inr t"
  using assms by (cases m; cases s) (auto simp: string_or_falsy_def js_or_def)


lemma retry_delay_cases:
  assumes "r = Undefined \<or> well_typed_detail r"
  shows "\<not> truthy (opt_jsprop r ''retryDelay'') \<or> (\<exists>d. jsprop r ''retryDelay'' = Str d)"
  using assms
  by (cases "jsprop r ''retryDelay''")
     (auto simp: opt_jsprop_def well_typed_detail_def string_or_falsy_def)

lemma convertible_ok:
  "convertible error \<Longrightarrow>
   \<exists>s. (case error of ErrorInst m ps \<Rightarrow> Inr m | _ \<Rightarrow> js_to_string error) = Inr s"
  by (cases error; cases "js_to_string error")
     (simp_all add: convertible_def del: js_to_string.simps)

lemma classifiable_returns:
  assumes "classifiable JSON_parse error"
  shows "\<exists>r. handleGeminiError JSON_parse error = Inr r"
proof (cases "truthy (opt_jsprop (getErrorObject JSON_parse error) ''error'')")
  case False
  with assms have "convertible error" by (simp add: classifiable_def Let_def)
  then obtain s where
    "(case error of ErrorInst m ps \<Rightarrow> Inr m | _ \<Rightarrow> js_to_string error) = Inr s"
    using convertible_ok by blast
  then show ?thesis
    using False by (simp add: handleGeminiError_def Let_def)
next
  case True
  let ?a = "jsprop (getErrorObject JSON_parse error) ''error''"
  from True assms have wt: "well_typed_api_error ?a" by (simp add: classifiable_def Let_def)
  then have sm: "string_or_falsy (jsprop ?a ''message'')" and ss: "string_or_falsy (jsprop ?a ''status'')"
    by (simp_all add: well_typed_api_error_def)
  obtain message where lm: "lower_message (jsprop ?a ''message'') = Inr message"
    using lower_message_ok [OF sm] by blast
  obtain retryInfo where df: "details_find (jsprop ?a ''details'') = Inr retryInfo"
    and wr: "retryInfo = Undefined \<or> well_typed_detail retryInfo"
    using details_ok(1) [OF wt] by blast
  obtain isInvalidKey where ds: "details_some (jsprop ?a ''details'') = Inr isInvalidKey"
    using details_ok(2) [OF wt] by blast
  obtain shown where sh:
    "js_to_string (js_or (jsprop ?a ''message'') (js_or (jsprop ?a ''status'') (Str ''Unknown error''))) = Inr shown"
    using shown_ok [OF sm ss] by blast
  from retry_delay_cases [OF wr] show ?thesis
  proof
    assume "\<not> truthy (opt_jsprop retryInfo ''retryDelay'')"
    then show ?thesis
      using True by (simp add: handleGeminiError_def Let_def lm df ds sh)
  next
    assume "\<exists>d. jsprop retryInfo ''retryDelay'' = Str d"
    then obtain d where "jsprop retryInfo ''retryDelay'' = Str d" by blast
    then show ?thesis
      using True by (simp add: handleGeminiError_def Let_def lm df ds sh)
  qed
qed


lemma number_5: "number_to_string (IntNum 5) = ''5''"
  by (simp add: number_to_string_def magnitude_to_string_def digits_of_5)

lemma parse_5s: "parseInt ''5'' = IntNum 5"
proof -
  have "to_double 5 = IntNum 5" by (rule to_double_exact) simp
  then show ?thesis by (simp add: parseInt_def is_ws_def is_digit_def)
qed

lemma find_RetryInfo_first:
  assumes "\<forall>x \<in> set pre. \<not> nullish x \<and> jsprop x ''@type'' \<noteq> Str ''type.googleapis.com/google.rpc.RetryInfo''"
    and "jsprop d ''@type'' = Str ''type.googleapis.com/google.rpc.RetryInfo''"
  shows "find_RetryInfo (pre @ d # post) = Inr d"
  using assms
proof (induction pre)
  case Nil
  then have "\<not> nullish d" by (cases d) auto
  with Nil show ?case by (simp add: get_def)
next
  case (Cons x pre)
  then show ?case by (simp add: get_def)
qed

lemma find_RetryInfo_none:
  assumes "\<forall>x \<in> set ds. \<not> nullish x \<and> jsprop x ''@type'' \<noteq> Str ''type.googleapis.com/google.rpc.RetryInfo''"
  shows "find_RetryInfo ds = Inr Undefined"
  using assms by (induction ds) (simp_all add: get_def)

lemma quota_with_delay:
  assumes t: "truthy (opt_jsprop (getErrorObject JSON_parse error) ''error'')"
    and a: "apiError = jsprop (getErrorObject JSON_parse error) ''error''"
    and m: "string_or_falsy (jsprop apiError ''message'')"
    and q: "jsprop apiError ''status'' = Str ''RESOURCE_EXHAUSTED'' \<or>
            jsprop apiError ''code'' = Num (IntNum 429)"
    and d: "details_find (jsprop apiError ''details'') = Inr retryInfo"
    and r: "jsprop retryInfo ''retryDelay'' = Str ''5s''"
  shows "handleGeminiError JSON_parse error =
           Inr \<lparr>userMessage = ''You've hit the API rate limit. Please try again in 5 seconds.'',
                shouldResetKey = None, retryDelay = Some (IntNum 5)\<rparr>"
proof -
  obtain message where lm: "lower_message (jsprop apiError ''message'') = Inr message"
    using lower_message_ok [OF m] by blast
  have n: "\<not> nullish retryInfo" using r by (cases retryInfo) auto
  show ?thesis
    using t q n
    by (simp add: handleGeminiError_def Let_def a [symmetric] lm d r opt_jsprop_def parse_5s
          number_5)
qed

lemma quota_without_delay:
  assumes t: "truthy (opt_jsprop (getErrorObject JSON_parse error) ''error'')"
    and a: "apiError = jsprop (getErrorObject JSON_parse error) ''error''"
    and m: "string_or_falsy (jsprop apiError ''message'')"
    and q: "jsprop apiError ''status'' = Str ''RESOURCE_EXHAUSTED'' \<or>
            jsprop apiError ''code'' = Num (IntNum 429)"
    and d: "details_find (jsprop apiError ''details'') = Inr retryInfo"
    and r: "\<not> truthy (opt_jsprop retryInfo ''retryDelay'')"
  shows "handleGeminiError JSON_parse error =
           Inr \<lparr>userMessage =
                  ''You have exceeded your current API quota. Please check your plan and billing details.'',
                shouldResetKey = None, retryDelay = None\<rparr>"
proof -
  obtain message where lm: "lower_message (jsprop apiError ''message'') = Inr message"
    using lower_message_ok [OF m] by blast
  show ?thesis
    using t q r
    by (simp add: handleGeminiError_def Let_def a [symmetric] lm d)
qed


lemma unexpected_primitive:
  assumes "getErrorObject JSON_parse error = Null" and "js_to_string error = Inr s"
    and "\<And>m ps. error \<noteq> ErrorInst m ps"
  shows "handleGeminiError JSON_parse error =
           Inr \<lparr>userMessage = ''An unexpected error occurred: '' @ s,
                shouldResetKey = None, retryDelay = None\<rparr>"
proof (cases error)
  case (ErrorInst m ps)
  then show ?thesis using assms(3) by blast
qed (use assms(1,2) in \<open>simp_all add: handleGeminiError_def opt_jsprop_def\<close>)

lemma absent_key: "k \<notin> fst ` set ps \<Longrightarrow> map_of ps k = None"
  by (simp add: map_of_eq_None_iff)

text \<open>
  Claim C3, as stated, fails: an input whose structured error has a message that is
  not a string, here the number 42, makes the classifier throw a type error.
\<close>

theorem handleGeminiError_counterexample:
  "handleGeminiError parse_example (Obj [(''error'', Obj [(''message'', Num (IntNum 42))])]) =
     Inl (TypeError ''(intermediate value).toLowerCase is not a function'')"
  by (simp add: handleGeminiError_def getErrorObject_def opt_jsprop_def lower_message_def
        js_or_def andThen_def)

text \<open>
  Claim C3, amended.  The classifier returns a result with a message for every input
  that either carries a structured error whose fields have the types of the API (the
  message and the status strings or missing, the details missing or an array of values
  that are not null, each retry delay a string or missing), or carries no structured
  error and can be converted to a string.  This covers every string, number and boolean,
  null and undefined, every plain object without an own \<open>error\<close> or \<open>toString\<close>, every
  \<open>Error\<close> whose message is not the text of a value and that has no own \<open>error\<close>, and
  structured errors of the types of the API, given as an object or as the text of one in
  the message of an \<open>Error\<close>.
\<close>

theorem handleGeminiError_returns:
  "(classifiable JSON_parse error \<longrightarrow> (\<exists>r. handleGeminiError JSON_parse error = Inr r)) \<and>
   handleGeminiError JSON_parse (Str s) =
     Inr \<lparr>userMessage = ''An unexpected error occurred: '' @ s,
          shouldResetKey = None, retryDelay = None\<rparr> \<and>
   handleGeminiError JSON_parse Null =
     Inr \<lparr>userMessage = ''An unexpected error occurred: null'',
          shouldResetKey = None, retryDelay = None\<rparr> \<and>
   handleGeminiError JSON_parse Undefined =
     Inr \<lparr>userMessage = ''An unexpected error occurred: undefined'',
          shouldResetKey = None, retryDelay = None\<rparr> \<and>
   handleGeminiError JSON_parse (Num n) =
     Inr \<lparr>userMessage = ''An unexpected error occurred: '' @ number_to_string n,
          shouldResetKey = None, retryDelay = None\<rparr> \<and>
   handleGeminiError JSON_parse (Bool b) =
     Inr \<lparr>userMessage = ''An unexpected error occurred: '' @ (if b then ''true'' else ''false''),
          shouldResetKey = None, retryDelay = None\<rparr> \<and>
   (''error'' \<notin> fst ` set ps \<and> ''toString'' \<notin> fst ` set ps \<longrightarrow>
      handleGeminiError JSON_parse (Obj ps) =
        Inr \<lparr>userMessage = ''An unexpected error occurred: [object Object]'',
             shouldResetKey = None, retryDelay = None\<rparr>) \<and>
   ((m1 = [] \<or> JSON_parse m1 = None) \<and> ''error'' \<notin> fst ` set ps1 \<longrightarrow>
      handleGeminiError JSON_parse (ErrorInst m1 ps1) =
        Inr \<lparr>userMessage = ''An unexpected error occurred: '' @ m1,
             shouldResetKey = None, retryDelay = None\<rparr>) \<and>
   (truthy (jsprop (Obj ps2) ''error'') \<and> well_typed_api_error (jsprop (Obj ps2) ''error'') \<longrightarrow>
      (\<exists>r. handleGeminiError JSON_parse (Obj ps2) = Inr r)) \<and>
   (m2 \<noteq> [] \<and> JSON_parse m2 = Some v \<and> truthy (opt_jsprop v ''error'') \<and>
    well_typed_api_error (jsprop v ''error'') \<longrightarrow>
      (\<exists>r. handleGeminiError JSON_parse (ErrorInst m2 ps3) = Inr r))"
proof (intro conjI impI)
  assume "classifiable JSON_parse error"
  then show "\<exists>r. handleGeminiError JSON_parse error = Inr r"
    by (rule classifiable_returns)
next
  show "handleGeminiError JSON_parse (Str s) =
     Inr \<lparr>userMessage = ''An unexpected error occurred: '' @ s,
          shouldResetKey = None, retryDelay = None\<rparr>"
    by (rule unexpected_primitive) (simp_all add: getErrorObject_def)
next
  show "handleGeminiError JSON_parse Null =
     Inr \<lparr>userMessage = ''An unexpected error occurred: null'',
          shouldResetKey = None, retryDelay = None\<rparr>"
    using unexpected_primitive [of JSON_parse Null "''null''"] by (simp add: getErrorObject_def)
next
  show "handleGeminiError JSON_parse Undefined =
     Inr \<lparr>userMessage = ''An unexpected error occurred: undefined'',
          shouldResetKey = None, retryDelay = None\<rparr>"
    using unexpected_primitive [of JSON_parse Undefined "''undefined''"]
    by (simp add: getErrorObject_def)
next
  show "handleGeminiError JSON_parse (Num n) =
     Inr \<lparr>userMessage = ''An unexpected error occurred: '' @ number_to_string n,
          shouldResetKey = None, retryDelay = None\<rparr>"
    by (rule unexpected_primitive) (simp_all add: getErrorObject_def)
next
  show "handleGeminiError JSON_parse (Bool b) =
     Inr \<lparr>userMessage = ''An unexpected error occurred: '' @ (if b then ''true'' else ''false''),
          shouldResetKey = None, retryDelay = None\<rparr>"
    by (rule unexpected_primitive) (simp_all add: getErrorObject_def)
next
  assume a: "''error'' \<notin> fst ` set ps \<and> ''toString'' \<notin> fst ` set ps"
  then have "map_of ps ''error'' = None" by (simp add: absent_key)
  then show "handleGeminiError JSON_parse (Obj ps) =
        Inr \<lparr>userMessage = ''An unexpected error occurred: [object Object]'',
             shouldResetKey = None, retryDelay = None\<rparr>"
    using a by (simp add: handleGeminiError_def getErrorObject_def opt_jsprop_def)
next
  assume a: "(m1 = [] \<or> JSON_parse m1 = None) \<and> ''error'' \<notin> fst ` set ps1"
  then have "map_of ps1 ''error'' = None" by (simp add: absent_key)
  moreover have "getErrorObject JSON_parse (ErrorInst m1 ps1) = ErrorInst m1 ps1"
    using a by (auto simp: getErrorObject_def)
  ultimately show "handleGeminiError JSON_parse (ErrorInst m1 ps1) =
        Inr \<lparr>userMessage = ''An unexpected error occurred: '' @ m1,
             shouldResetKey = None, retryDelay = None\<rparr>"
    by (simp add: handleGeminiError_def opt_jsprop_def)
next
  assume "truthy (jsprop (Obj ps2) ''error'') \<and> well_typed_api_error (jsprop (Obj ps2) ''error'')"
  then have "classifiable JSON_parse (Obj ps2)"
    by (simp add: classifiable_def getErrorObject_def opt_jsprop_def)
  then show "\<exists>r. handleGeminiError JSON_parse (Obj ps2) = Inr r"
    by (rule classifiable_returns)
next
  assume "m2 \<noteq> [] \<and> JSON_parse m2 = Some v \<and> truthy (opt_jsprop v ''error'') \<and>
    well_typed_api_error (jsprop v ''error'')"
  then have "classifiable JSON_parse (ErrorInst m2 ps3)"
    by (simp add: classifiable_def getErrorObject_def)
  then show "\<exists>r. handleGeminiError JSON_parse (ErrorInst m2 ps3) = Inr r"
    by (rule classifiable_returns)
qed


lemma lower_expired:
  "toLowerCase ''API key expired. Please renew the API key.'' =
     ''api key expired. please renew the api key.''"
  by code_simp

lemma lower_exhausted:
  "toLowerCase ''Resource has been exhausted (e.g. check quota).'' =
     ''resource has been exhausted (e.g. check quota).''"
  by code_simp

lemma expired_result:
  "handleGeminiError parse_example (ErrorInst ''{expired-key response body}'' []) =
     Inr \<lparr>userMessage = ''Your API key has expired. Please renew it and try again.'',
          shouldResetKey = None, retryDelay = None\<rparr>"
  by (simp add: handleGeminiError_def getErrorObject_def parse_example_def expired_key_error_def
        opt_jsprop_def lower_message_def js_or_def lower_expired details_some_def)

lemma quota_example_api:
  "quota_api_error parse_example (quota_error details)
     (Obj [(''code'', Num (IntNum 429)),
           (''message'', Str ''Resource has been exhausted (e.g. check quota).''),
           (''status'', Str ''RESOURCE_EXHAUSTED''),
           (''details'', details)])"
  by (simp add: quota_api_error_def quota_error_def getErrorObject_def opt_jsprop_def
        string_or_falsy_def)

theorem handleGeminiError_returns_witness:
  "classifiable parse_example (quota_error retry_details) \<and>
   (\<exists>r. handleGeminiError parse_example (quota_error retry_details) = Inr r) \<and>
   handleGeminiError parse_example (Obj [(''code'', Num (IntNum 7))]) =
     Inr \<lparr>userMessage = ''An unexpected error occurred: [object Object]'',
          shouldResetKey = None, retryDelay = None\<rparr> \<and>
   handleGeminiError parse_example (ErrorInst ''Failed to fetch'' []) =
     Inr \<lparr>userMessage = ''An unexpected error occurred: Failed to fetch'',
          shouldResetKey = None, retryDelay = None\<rparr> \<and>
   well_typed_api_error (jsprop expired_key_error ''error'') \<and>
   (\<exists>r. handleGeminiError parse_example expired_key_error = Inr r) \<and>
   (\<exists>r. handleGeminiError parse_example (ErrorInst ''{expired-key response body}'' []) = Inr r)"
proof -
  have c: "classifiable parse_example (quota_error retry_details)"
    by (simp add: classifiable_def quota_error_def retry_details_def getErrorObject_def
          opt_jsprop_def well_typed_api_error_def well_typed_detail_def string_or_falsy_def)
  have w: "well_typed_api_error (jsprop expired_key_error ''error'')"
    by (simp add: expired_key_error_def well_typed_api_error_def string_or_falsy_def)
  have t: "truthy (jsprop expired_key_error ''error'')"
    by (simp add: expired_key_error_def)
  have e: "expired_key_error =
             Obj [(''error'',
                   Obj [(''code'', Num (IntNum 400)),
                        (''message'', Str ''API key expired. Please renew the API key.''),
                        (''status'', Str ''INVALID_ARGUMENT'')])]"
    by (simp add: expired_key_error_def)
  have p: "parse_example ''{expired-key response body}'' = Some expired_key_error"
          "parse_example ''Failed to fetch'' = None"
    by (simp_all add: parse_example_def)
  have t': "truthy (opt_jsprop expired_key_error ''error'')"
    by (simp add: expired_key_error_def opt_jsprop_def)
  show ?thesis
    using handleGeminiError_returns
            [where JSON_parse = parse_example and error = "quota_error retry_details"
               and ps = "[(''code'', Num (IntNum 7))]"
               and ?m1.0 = "''Failed to fetch''" and ?ps1.0 = "[]"
               and ?ps2.0 = "[(''error'',
                   Obj [(''code'', Num (IntNum 400)),
                        (''message'', Str ''API key expired. Please renew the API key.''),
                        (''status'', Str ''INVALID_ARGUMENT'')])]"
               and ?m2.0 = "''{expired-key response body}''" and v = expired_key_error
               and ?ps3.0 = "[]"]
          c w t t' p
    unfolding e [symmetric] by simp
qed

text \<open>
  Claim C4, as stated, fails: a quota error that carries a retry delay of \<open>5s\<close> in its
  second retry hint, the first one having no delay, is answered with the quota message
  and no delay, since only the first retry hint is read.
\<close>

theorem quota_retry_delay_counterexample:
  "handleGeminiError parse_example (quota_error two_retry_details) =
     Inr \<lparr>userMessage =
            ''You have exceeded your current API quota. Please check your plan and billing details.'',
          shouldResetKey = None, retryDelay = None\<rparr>"
  by (simp add: handleGeminiError_def getErrorObject_def quota_error_def two_retry_details_def
        opt_jsprop_def lower_message_def js_or_def details_find_def get_def andThen_def)

text \<open>
  The classifier throws for a quota error whose message is not a string, and for one
  with a null among its details before the first retry hint.
\<close>

lemma quota_number_message_throws:
  "handleGeminiError parse_example
     (Obj [(''error'',
            Obj [(''code'', Num (IntNum 429)), (''message'', Num (IntNum 42)),
                 (''status'', Str ''RESOURCE_EXHAUSTED''), (''details'', retry_details)])]) =
   Inl (TypeError ''(intermediate value).toLowerCase is not a function'')"
  by (simp add: handleGeminiError_def getErrorObject_def opt_jsprop_def lower_message_def
        js_or_def andThen_def)

lemma quota_null_detail_throws:
  "handleGeminiError parse_example
     (quota_error
        (Arr [Null,
              Obj [(''@type'', Str ''type.googleapis.com/google.rpc.RetryInfo''),
                   (''retryDelay'', Str ''5s'')]])) =
   Inl (TypeError ''Cannot read properties of undefined'')"
  by (simp add: handleGeminiError_def getErrorObject_def quota_error_def opt_jsprop_def
        lower_message_def js_or_def details_find_def get_def andThen_def)

text \<open>
  Claim C4, amended.  Take a structured error whose status is \<open>RESOURCE_EXHAUSTED\<close> or
  whose code is 429, and whose message is a string or missing.  If its details are an
  array in which the first retry hint has the delay \<open>5s\<close>, and no value before it is null,
  the classifier returns the delay 5 and a message that contains \<open>5\<close>.  If its details
  are missing, or are an array of values that are not null with no retry hint, or with a
  first retry hint that has no delay, the classifier returns the quota message and no
  delay.
\<close>

theorem quota_retry_delay:
  "(quota_api_error JSON_parse error apiError \<and>
    jsprop apiError ''details'' = Arr (pre @ d # post) \<and>
    (\<forall>x \<in> set pre. \<not> nullish x \<and> jsprop x ''@type'' \<noteq> RetryInfo) \<and>
    jsprop d ''@type'' = RetryInfo \<and> jsprop d ''retryDelay'' = Str ''5s'' \<longrightarrow>
      handleGeminiError JSON_parse error =
        Inr \<lparr>userMessage = ''You've hit the API rate limit. Please try again in 5 seconds.'',
             shouldResetKey = None, retryDelay = Some (IntNum 5)\<rparr> \<and>
      includes_str ''You've hit the API rate limit. Please try again in 5 seconds.'' ''5'') \<and>
   (quota_api_error JSON_parse error' apiError' \<and>
    (nullish (jsprop apiError' ''details'') \<or>
     jsprop apiError' ''details'' = Arr ds \<and>
     (\<forall>x \<in> set ds. \<not> nullish x \<and> jsprop x ''@type'' \<noteq> RetryInfo) \<or>
     jsprop apiError' ''details'' = Arr (pre' @ d' # post') \<and>
     (\<forall>x \<in> set pre'. \<not> nullish x \<and> jsprop x ''@type'' \<noteq> RetryInfo) \<and>
     jsprop d' ''@type'' = RetryInfo \<and> \<not> truthy (jsprop d' ''retryDelay'')) \<longrightarrow>
      handleGeminiError JSON_parse error' =
        Inr \<lparr>userMessage =
               ''You have exceeded your current API quota. Please check your plan and billing details.'',
             shouldResetKey = None, retryDelay = None\<rparr>)"
proof (intro conjI impI)
  assume a: "quota_api_error JSON_parse error apiError \<and>
    jsprop apiError ''details'' = Arr (pre @ d # post) \<and>
    (\<forall>x \<in> set pre. \<not> nullish x \<and> jsprop x ''@type'' \<noteq> RetryInfo) \<and>
    jsprop d ''@type'' = RetryInfo \<and> jsprop d ''retryDelay'' = Str ''5s''"
  then have f: "details_find (jsprop apiError ''details'') = Inr d"
    using find_RetryInfo_first [of pre d post] by (simp add: details_find_def RetryInfo_def)
  from a have q: "truthy (opt_jsprop (getErrorObject JSON_parse error) ''error'')"
      "apiError = jsprop (getErrorObject JSON_parse error) ''error''"
      "string_or_falsy (jsprop apiError ''message'')"
      "jsprop apiError ''status'' = Str ''RESOURCE_EXHAUSTED'' \<or>
       jsprop apiError ''code'' = Num (IntNum 429)"
      "jsprop d ''retryDelay'' = Str ''5s''"
    unfolding quota_api_error_def by blast+
  show "handleGeminiError JSON_parse error =
        Inr \<lparr>userMessage = ''You've hit the API rate limit. Please try again in 5 seconds.'',
             shouldResetKey = None, retryDelay = Some (IntNum 5)\<rparr>"
    by (rule quota_with_delay [OF q(1) q(2) q(3) q(4) f q(5)])
next
  show "includes_str ''You've hit the API rate limit. Please try again in 5 seconds.'' ''5''"
    by simp
next
  assume a: "quota_api_error JSON_parse error' apiError' \<and>
    (nullish (jsprop apiError' ''details'') \<or>
     jsprop apiError' ''details'' = Arr ds \<and>
     (\<forall>x \<in> set ds. \<not> nullish x \<and> jsprop x ''@type'' \<noteq> RetryInfo) \<or>
     jsprop apiError' ''details'' = Arr (pre' @ d' # post') \<and>
     (\<forall>x \<in> set pre'. \<not> nullish x \<and> jsprop x ''@type'' \<noteq> RetryInfo) \<and>
     jsprop d' ''@type'' = RetryInfo \<and> \<not> truthy (jsprop d' ''retryDelay''))"
  then consider
      (missing) "nullish (jsprop apiError' ''details'')"
    | (none) "jsprop apiError' ''details'' = Arr ds"
        "\<forall>x \<in> set ds. \<not> nullish x \<and> jsprop x ''@type'' \<noteq> RetryInfo"
    | (nodelay) "jsprop apiError' ''details'' = Arr (pre' @ d' # post')"
        "\<forall>x \<in> set pre'. \<not> nullish x \<and> jsprop x ''@type'' \<noteq> RetryInfo"
        "jsprop d' ''@type'' = RetryInfo" "\<not> truthy (jsprop d' ''retryDelay'')"
    by blast
  then obtain retryInfo where
    f: "details_find (jsprop apiError' ''details'') = Inr retryInfo" and
    n: "\<not> truthy (opt_jsprop retryInfo ''retryDelay'')"
  proof cases
    case missing
    then have "details_find (jsprop apiError' ''details'') = Inr Undefined"
      by (simp add: details_find_def)
    then show ?thesis using that [of Undefined] by (simp add: opt_jsprop_def)
  next
    case none
    then have "details_find (jsprop apiError' ''details'') = Inr Undefined"
      using find_RetryInfo_none [of ds] by (simp add: details_find_def RetryInfo_def)
    then show ?thesis using that [of Undefined] by (simp add: opt_jsprop_def)
  next
    case nodelay
    then have "details_find (jsprop apiError' ''details'') = Inr d'"
      using find_RetryInfo_first [of pre' d' post'] by (simp add: details_find_def RetryInfo_def)
    then show ?thesis using that [of d'] nodelay(4) by (simp add: opt_jsprop_def)
  qed
  from a have q: "truthy (opt_jsprop (getErrorObject JSON_parse error') ''error'')"
      "apiError' = jsprop (getErrorObject JSON_parse error') ''error''"
      "string_or_falsy (jsprop apiError' ''message'')"
      "jsprop apiError' ''status'' = Str ''RESOURCE_EXHAUSTED'' \<or>
       jsprop apiError' ''code'' = Num (IntNum 429)"
    unfolding quota_api_error_def by blast+
  show "handleGeminiError JSON_parse error' =
        Inr \<lparr>userMessage =
               ''You have exceeded your current API quota. Please check your plan and billing details.'',
             shouldResetKey = None, retryDelay = None\<rparr>"
    by (rule quota_without_delay [OF q(1) q(2) q(3) q(4) f n])
qed

theorem quota_retry_delay_witness:
  "quota_api_error parse_example (quota_error retry_details)
     (jsprop (quota_error retry_details) ''error'') \<and>
   handleGeminiError parse_example (quota_error retry_details) =
     Inr \<lparr>userMessage = ''You've hit the API rate limit. Please try again in 5 seconds.'',
          shouldResetKey = None, retryDelay = Some (IntNum 5)\<rparr> \<and>
   quota_api_error parse_example (quota_error Undefined)
     (jsprop (quota_error Undefined) ''error'') \<and>
   handleGeminiError parse_example (quota_error Undefined) =
     Inr \<lparr>userMessage =
            ''You have exceeded your current API quota. Please check your plan and billing details.'',
          shouldResetKey = None, retryDelay = None\<rparr>"
proof -
  have q: "quota_api_error parse_example (quota_error details)
             (jsprop (quota_error details) ''error'')" for details
    using quota_example_api [of details] by (simp add: quota_error_def)
  have d: "jsprop (jsprop (quota_error retry_details) ''error'') ''details'' =
             Arr ([Obj [(''@type'', Str ''type.googleapis.com/google.rpc.Help'')]] @
                  Obj [(''@type'', Str ''type.googleapis.com/google.rpc.RetryInfo''),
                       (''retryDelay'', Str ''5s'')] # [])"
    by (simp add: quota_error_def retry_details_def)
  have u: "nullish (jsprop (jsprop (quota_error Undefined) ''error'') ''details'')"
    by (simp add: quota_error_def)
  have h: "\<forall>x \<in> set [Obj [(''@type'', Str ''type.googleapis.com/google.rpc.Help'')]].
             \<not> nullish x \<and> jsprop x ''@type'' \<noteq> RetryInfo"
    by (simp add: RetryInfo_def)
  have r: "jsprop (Obj [(''@type'', Str ''type.googleapis.com/google.rpc.RetryInfo''),
                       (''retryDelay'', Str ''5s'')]) ''@type'' = RetryInfo"
          "jsprop (Obj [(''@type'', Str ''type.googleapis.com/google.rpc.RetryInfo''),
                       (''retryDelay'', Str ''5s'')]) ''retryDelay'' = Str ''5s''"
    by (simp_all add: RetryInfo_def)
  show ?thesis
    using quota_retry_delay
            [of parse_example "quota_error retry_details"
                "jsprop (quota_error retry_details) ''error''"
                "[Obj [(''@type'', Str ''type.googleapis.com/google.rpc.Help'')]]"
                "Obj [(''@type'', Str ''type.googleapis.com/google.rpc.RetryInfo''),
                      (''retryDelay'', Str ''5s'')]"
                "[]"
                "quota_error Undefined" "jsprop (quota_error Undefined) ''error''"]
          q [of retry_details] q [of Undefined] d u h r
    by simp
qed

section \<open>Properties of the chat submit\<close>

lemma trim_Hi: "trim ''Hi'' = ''Hi''" "trim ''More'' = ''More''"
  by code_simp+

lemma not_create:
  "startsWith (toLowerCase (trim ''Hi'')) ''/create '' = False"
  "startsWith (toLowerCase (trim ''More'')) ''/create '' = False"
  by code_simp+

lemma retry_init_idle: "js_less (IntNum 0) (retryAfter retry_init) = False"
  by (simp add: retry_init_def)

lemma submit_try_messages:
  assumes "submit_try generateContent props currentInput currentImageFile newMessages st =
             (thrown, st')"
  shows "(thrown \<noteq> None \<and> messages st' = messages st) \<or>
         (\<exists>reply. role reply = ''model'' \<and> messages st' = newMessages @ [reply])"
  using assms unfolding submit_try_def Let_def
  by (auto split: if_splits sum.splits list.splits option.splits)

lemma submit_try_returns:
  assumes "submit_try generateContent props currentInput currentImageFile newMessages st =
             (None, st')"
  shows "\<exists>reply. role reply = ''model'' \<and> messages st' = newMessages @ [reply]"
  using submit_try_messages [OF assms] by simp


text \<open>
  The paths of a submission that is not refused.  Either the reply is added after the
  user message and no error is shown.  Or a thrown value is caught and an error is
  shown: the list is as before the submission when the value was thrown before the reply
  was added, and keeps the user message, without the reply, when it was thrown after.
  Or the classifier throws in the \<open>catch\<close> block: the promise is rejected and the
  list is left as it was at that moment.
\<close>

lemma handleSubmit_messages:
  assumes gate: "trim (input st) \<noteq> []" "\<not> isLoading st"
      "\<not> js_less (IntNum 0) (retryAfter (retry st))"
    and key: "API_KEY = Some k" "k \<noteq> []"
    and run: "handleSubmit API_KEY JSON_parse generateContent props st = (rejected, st')"
    and user: "user = \<lparr>role = ''user'', text_msg = input st,
                 imageUrl = map_option (\<lambda>f. ''data:'' @ file_type f @ '';base64,'' @ base64 f)
                              (imageFile st),
                 sources = None\<rparr>"
  shows "(rejected = None \<and> error_st st' = None \<and>
          (\<exists>reply. role reply = ''model'' \<and> messages st' = messages st @ [user, reply])) \<or>
         (rejected = None \<and>
          (\<exists>shown. error_st st' = Some (''Failed to get response: '' @ shown)) \<and>
          (messages st' = messages st \<or> messages st' = messages st @ [user])) \<or>
         (rejected \<noteq> None \<and>
          (messages st' = messages st @ [user] \<or>
           (\<exists>reply. messages st' = messages st @ [user, reply])))"
proof -
  let ?running = "st\<lparr>error_st := None, retry := cancel_retry (retry st), input := [],
                      imageFile := None, messages := messages st @ [user], isLoading := True\<rparr>"
  obtain thrown s where t:
    "submit_try generateContent props (input st) (imageFile st) (messages st @ [user]) ?running =
       (thrown, s)"
    by (cases "submit_try generateContent props (input st) (imageFile st) (messages st @ [user])
                 ?running") blast
  have e: "error_st s = None"
    using t unfolding submit_try_def Let_def
    by (auto split: if_splits sum.splits list.splits option.splits)
  have r: "handleSubmit API_KEY JSON_parse generateContent props st =
             (case thrown of
                None \<Rightarrow> (None, s\<lparr>isLoading := False\<rparr>)
              | Some e \<Rightarrow>
                  (case handleGeminiError JSON_parse e of
                     Inl e' \<Rightarrow> (Some e', s\<lparr>isLoading := False\<rparr>)
                   | Inr parsed \<Rightarrow>
                       (None,
                        s\<lparr>error_st := Some (''Failed to get response: '' @ userMessage parsed),
                          retry := arm_retry (retryDelay parsed) (retry s),
                          messages := butlast (messages s),
                          isLoading := False\<rparr>)))"
    using gate key t unfolding handleSubmit_def Let_def user [symmetric]
    by (cases thrown) simp_all
  have m: "messages s = messages st @ [user] \<or>
           (\<exists>reply. role reply = ''model'' \<and> messages s = messages st @ [user, reply])"
    using submit_try_messages [OF t] by auto
  show ?thesis
  proof (cases thrown)
    case None
    then have "\<exists>reply. role reply = ''model'' \<and> messages s = messages st @ [user, reply]"
      using submit_try_returns [of generateContent props "input st" "imageFile st"
                                  "messages st @ [user]" ?running s] t
      by simp
    moreover have "rejected = None" "st' = s\<lparr>isLoading := False\<rparr>"
      using None run r by simp_all
    ultimately show ?thesis using e by simp
  next
    case (Some x)
    show ?thesis
    proof (cases "handleGeminiError JSON_parse x")
      case (Inl e')
      then have "rejected = Some e'" "st' = s\<lparr>isLoading := False\<rparr>"
        using Some run r by simp_all
      then show ?thesis using m by auto
    next
      case (Inr parsed)
      then have o: "rejected = None"
          "st' = s\<lparr>error_st := Some (''Failed to get response: '' @ userMessage parsed),
                    retry := arm_retry (retryDelay parsed) (retry s),
                    messages := butlast (messages s),
                    isLoading := False\<rparr>"
        using Some run r by simp_all
      have b: "butlast (messages s) = messages st \<or> butlast (messages s) = messages st @ [user]"
        using m by (auto simp: butlast_append)
      have "error_st st' = Some (''Failed to get response: '' @ userMessage parsed)"
        using o(2) by simp
      then have x: "\<exists>shown. error_st st' = Some (''Failed to get response: '' @ shown)"
        by (rule exI)
      have "messages st' = butlast (messages s)"
        using o(2) by simp
      then have y: "messages st' = messages st \<or> messages st' = messages st @ [user]"
        using b by simp
      show ?thesis
        by (rule disjI2, rule disjI1) (intro conjI o(1) x y)
    qed
  qed
qed

lemma truthy_id_simps:
  "truthy_id None = None" "truthy_id (Some ''chat-1'') = Some ''chat-1''"
  by (simp_all add: truthy_id_def)

lemma first_try:
  "submit_try no_image_model new_chat_props ''Hi'' None ms
     \<lparr>messages = ms, input = [], imageFile = None, isLoading = True, error_st = None,
      studyMode = False, researchMode = False, retry = r,
      chatRef = Some chat_session, currentChatId = None\<rparr> =
   (None,
     \<lparr>messages = ms @ [\<lparr>role = ''model'', text_msg = ''Hello!'', imageUrl = None, sources = None\<rparr>],
      input = [], imageFile = None, isLoading = True, error_st = None,
      studyMode = False, researchMode = False, retry = r,
      chatRef = Some chat_session, currentChatId = Some ''chat-1''\<rparr>)"
  unfolding submit_try_def Let_def not_create
  by (simp add: new_chat_props_def chat_session_def truthy_id_simps sources_of_def)

lemma first_submit:
  "handleSubmit (Some ''key'') parse_example no_image_model new_chat_props (new_chat_state ''Hi'') =
     (None,
      \<lparr>messages = [\<lparr>role = ''user'', text_msg = ''Hi'', imageUrl = None, sources = None\<rparr>,
                  \<lparr>role = ''model'', text_msg = ''Hello!'', imageUrl = None, sources = None\<rparr>],
       input = [], imageFile = None, isLoading = False, error_st = None,
       studyMode = False, researchMode = False, retry = cancel_retry retry_init,
       chatRef = Some chat_session, currentChatId = Some ''chat-1''\<rparr>)"
  unfolding handleSubmit_def Let_def
  by (simp add: new_chat_state_def trim_Hi retry_init_idle first_try)

lemma second_try:
  "submit_try no_image_model new_chat_props ''More'' None ms
     \<lparr>messages = ms, input = [], imageFile = None, isLoading = True, error_st = None,
      studyMode = False, researchMode = False, retry = r,
      chatRef = Some chat_session, currentChatId = Some ''chat-1''\<rparr> =
   (Some (TypeError ''Cannot read properties of undefined (reading 'data')''),
     \<lparr>messages = ms @ [\<lparr>role = ''model'', text_msg = ''Hello!'', imageUrl = None, sources = None\<rparr>],
      input = [], imageFile = None, isLoading = True, error_st = None,
      studyMode = False, researchMode = False, retry = r,
      chatRef = Some chat_session, currentChatId = Some ''chat-1''\<rparr>)"
  unfolding submit_try_def Let_def not_create
  by (simp add: new_chat_props_def chat_session_def truthy_id_simps sources_of_def
        update_chat_def)

lemma classify_TypeError:
  "handleGeminiError parse_example
     (TypeError ''Cannot read properties of undefined (reading 'data')'') =
   Inr \<lparr>userMessage =
          ''An unexpected error occurred: Cannot read properties of undefined (reading 'data')'',
        shouldResetKey = None, retryDelay = None\<rparr>"
  by (simp add: handleGeminiError_def getErrorObject_def TypeError_def parse_example_def
        opt_jsprop_def)

lemma cancel_retry_init: "cancel_retry retry_init = retry_init"
  by (simp add: cancel_retry_def clear_timerRef_def retry_init_def)

text \<open>
  Claim C7.  A new chat, with no history item: the first message is answered and the
  parent returns the identifier of the chat.  The second message is answered too, but
  then the title is read from the history item, which is still undefined, and that
  throws after the reply was put on the list.  The \<open>catch\<close> block, which is
  commented \<open>remove user message on error\<close>, drops the last message: the reply goes
  and the user message stays, so the list is not the one before the submission.
\<close>

theorem handleSubmit_keeps_user_message:
  "handleSubmit (Some ''key'') parse_example no_image_model new_chat_props
     ((snd (handleSubmit (Some ''key'') parse_example no_image_model new_chat_props
              (new_chat_state ''Hi'')))\<lparr>input := ''More''\<rparr>) =
     (None,
      \<lparr>messages = [\<lparr>role = ''user'', text_msg = ''Hi'', imageUrl = None, sources = None\<rparr>,
                  \<lparr>role = ''model'', text_msg = ''Hello!'', imageUrl = None, sources = None\<rparr>,
                  \<lparr>role = ''user'', text_msg = ''More'', imageUrl = None, sources = None\<rparr>],
       input = [], imageFile = None, isLoading = False,
       error_st = Some ''Failed to get response: An unexpected error occurred: Cannot read properties of undefined (reading 'data')'',
       studyMode = False, researchMode = False, retry = retry_init,
       chatRef = Some chat_session, currentChatId = Some ''chat-1''\<rparr>)"
proof -
  have s: "(snd (handleSubmit (Some ''key'') parse_example no_image_model new_chat_props
              (new_chat_state ''Hi'')))\<lparr>input := ''More''\<rparr> =
     \<lparr>messages = [\<lparr>role = ''user'', text_msg = ''Hi'', imageUrl = None, sources = None\<rparr>,
                 \<lparr>role = ''model'', text_msg = ''Hello!'', imageUrl = None, sources = None\<rparr>],
      input = ''More'', imageFile = None, isLoading = False, error_st = None,
      studyMode = False, researchMode = False, retry = retry_init,
      chatRef = Some chat_session, currentChatId = Some ''chat-1''\<rparr>"
    by (simp add: first_submit cancel_retry_init)
  show ?thesis
    unfolding s unfolding handleSubmit_def Let_def
    by (simp add: trim_Hi retry_init_idle cancel_retry_init second_try classify_TypeError
          arm_retry_def)
qed

end
